theory Spec2Isabelle
  imports Complex_Main
begin

section \<open>Data model (hooks/train-types.ts)\<close>

text \<open>
  JavaScript numbers are modelled as real numbers: the finite doubles, without rounding.
  A value that may be \<open>null\<close> or \<open>undefined\<close> is an \<open>option\<close>; on the reals
  \<open>Number.isNaN\<close> is always false, so the \<open>isNaN\<close> disjunct of a guard has no branch here.
  The one place where the code itself produces \<open>Number.POSITIVE_INFINITY\<close> (the running
  minimum of the nearest-station scan) uses the type \<open>number\<close> below.
\<close>

record Station =
  station_id :: string
  station_name :: string
  latitude :: real
  longitude :: real

record TrainLine =
  line_id :: string
  line_name :: string
  stations :: "Station list"
  color :: string

record AppSettings =
  soundOnlyWithHeadphones :: bool
  vibrationEnabled :: bool
  arrivalThreshold :: "real option"

definition GPS_INTERVAL_NEAR_MS :: int where "GPS_INTERVAL_NEAR_MS = 1000"
definition GPS_INTERVAL_MID_MS :: int where "GPS_INTERVAL_MID_MS = 3000"
definition GPS_INTERVAL_FAR_MS :: int where "GPS_INTERVAL_FAR_MS = 10000"
definition GPS_DISTANCE_FILTER_NEAR :: int where "GPS_DISTANCE_FILTER_NEAR = 10"
definition GPS_DISTANCE_FILTER_FAR :: int where "GPS_DISTANCE_FILTER_FAR = 30"
definition ARRIVAL_THRESHOLD_DEFAULT :: real where "ARRIVAL_THRESHOLD_DEFAULT = 300"
definition CURRENT_STATION_THRESHOLD :: real where "CURRENT_STATION_THRESHOLD = 150"
definition STOPPED_STATION_THRESHOLD :: real where "STOPPED_STATION_THRESHOLD = 75"
definition DEPARTURE_THRESHOLD :: real where "DEPARTURE_THRESHOLD = 600"
definition DYNAMIC_FAR_DISTANCE :: real where "DYNAMIC_FAR_DISTANCE = 5000"
definition DYNAMIC_MID_DISTANCE :: real where "DYNAMIC_MID_DISTANCE = 2000"
definition EARTH_RADIUS :: real where "EARTH_RADIUS = 6371000"

section \<open>Threshold tuner (arrival-threshold module)\<close>

definition MIN_EFFECTIVE_THRESHOLD :: real where "MIN_EFFECTIVE_THRESHOLD = 220"
definition MAX_EFFECTIVE_THRESHOLD :: real where "MAX_EFFECTIVE_THRESHOLD = 1300"

text \<open>\<open>Math.atan2 y x\<close>, the angle of the point \<open>(x, y)\<close>.\<close>

definition Math_atan2 :: "real \<Rightarrow> real \<Rightarrow> real" where
  "Math_atan2 y x =
     (if x > 0 then arctan (y / x)
      else if x < 0 then (if y \<ge> 0 then arctan (y / x) + pi else arctan (y / x) - pi)
      else if y > 0 then pi / 2
      else if y < 0 then - (pi / 2)
      else 0)"

text \<open>\<open>Math.round\<close>: the nearest integer, a tie going up.\<close>

definition Math_round :: "real \<Rightarrow> real" where
  "Math_round x = of_int \<lfloor>x + 1 / 2\<rfloor>"

definition getSpeedAdjustment :: "real option \<Rightarrow> real" where
  "getSpeedAdjustment speedMps =
     (case speedMps of
        None \<Rightarrow> 0
      | Some v \<Rightarrow>
          if v \<le> 0 then 0
          else let speedKmh = v * (36 / 10) in
            if speedKmh \<ge> 80 then 180
            else if speedKmh \<ge> 60 then 120
            else if speedKmh \<ge> 40 then 60
            else if speedKmh < 15 then - 80
            else 0)"

definition getLineAdjustment :: "real option \<Rightarrow> real" where
  "getLineAdjustment averageStationSpacing =
     (case averageStationSpacing of
        None \<Rightarrow> 0
      | Some v \<Rightarrow>
          if v \<le> 0 then 0
          else if v \<ge> 1800 then 120
          else if v \<ge> 1200 then 60
          else if v \<le> 450 then - 140
          else if v \<le> 700 then - 80
          else 0)"

text \<open>
  The loop of computeAverageStationSpacing over the consecutive pairs of stations, with
  the running sum (written \<open>sumSoFar\<close>) and count. (Every distance is finite here.)
\<close>

fun spacingLoop :: "Station \<Rightarrow> Station list \<Rightarrow> real \<times> int \<Rightarrow> real \<times> int" where
  "spacingLoop previous [] (sumSoFar, count) = (sumSoFar, count)"
| "spacingLoop previous (current # rest) (sumSoFar, count) =
     (let dLat = (latitude current - latitude previous) * (pi / 180);
          dLon = (longitude current - longitude previous) * (pi / 180);
          prevLat = latitude previous * (pi / 180);
          currLat = latitude current * (pi / 180);
          a = sin (dLat / 2) * sin (dLat / 2) +
              cos prevLat * cos currLat * sin (dLon / 2) * sin (dLon / 2);
          distance = 6371000 * 2 * Math_atan2 (sqrt a) (sqrt (1 - a))
      in spacingLoop current rest
           (if distance > 0 then (sumSoFar + distance, count + 1) else (sumSoFar, count)))"

definition computeAverageStationSpacing :: "Station list \<Rightarrow> real option" where
  "computeAverageStationSpacing sts =
     (if length sts < 2 then None
      else (case spacingLoop (hd sts) (tl sts) (0, 0) of
              (sumSoFar, count) \<Rightarrow> if count = 0 then None else Some (sumSoFar / real_of_int count)))"

definition computeEffectiveArrivalThreshold :: "real \<Rightarrow> real option \<Rightarrow> real option \<Rightarrow> real" where
  "computeEffectiveArrivalThreshold baseThreshold speedMps averageStationSpacing =
     (let tuned = baseThreshold + getSpeedAdjustment speedMps + getLineAdjustment averageStationSpacing
      in max MIN_EFFECTIVE_THRESHOLD (min MAX_EFFECTIVE_THRESHOLD (Math_round tuned)))"

section \<open>Geodesy (hooks/useLocationTracking.ts)\<close>

definition getDistanceFromLatLonInMeters :: "real \<Rightarrow> real \<Rightarrow> real \<Rightarrow> real \<Rightarrow> real" where
  "getDistanceFromLatLonInMeters lat1 lon1 lat2 lon2 =
     (let radius = EARTH_RADIUS;
          dLat = (lat2 - lat1) * (pi / 180);
          dLon = (lon2 - lon1) * (pi / 180);
          a = sin (dLat / 2) * sin (dLat / 2) +
              cos (lat1 * (pi / 180)) * cos (lat2 * (pi / 180)) * sin (dLon / 2) * sin (dLon / 2)
      in radius * 2 * Math_atan2 (sqrt a) (sqrt (1 - a)))"


section \<open>The tracking hook (hooks/useLocationTracking.ts)\<close>

text \<open>
  The file holds two versions of the hook; the one modelled is the later one, with the
  background location task, the effective arrival threshold and the one-shot latch.
\<close>

text \<open>
  A number that may be \<open>Number.POSITIVE_INFINITY\<close>: the running minimum of the scan and
  the value stored in \<open>nearestStationDistance\<close>.
\<close>

datatype number = Num real | Infinity

text \<open>\<open>x < m\<close> for a finite \<open>x\<close>.\<close>

fun number_less :: "real \<Rightarrow> number \<Rightarrow> bool" where
  "number_less x Infinity = True"
| "number_less x (Num m) = (x < m)"

text \<open>\<open>m <= x\<close> for a finite \<open>x\<close>.\<close>

fun number_le :: "number \<Rightarrow> real \<Rightarrow> bool" where
  "number_le Infinity x = False"
| "number_le (Num m) x = (m \<le> x)"

text \<open>\<open>Math.floor\<close>; the floor of Infinity is Infinity.\<close>

fun Math_floor :: "number \<Rightarrow> number" where
  "Math_floor Infinity = Infinity"
| "Math_floor (Num m) = Num (of_int \<lfloor>m\<rfloor>)"

record LocationSample =
  sample_latitude :: real
  sample_longitude :: real
  speedMps :: "real option"

datatype DynamicMode = Near | Mid | Far

datatype Accuracy = Balanced | High

record LocationOptions =
  accuracy :: Accuracy
  timeInterval :: int
  distanceInterval :: int

text \<open>The calls made to the background location task of the platform.\<close>

datatype LocationCall = StopLocationUpdates | StartLocationUpdates LocationOptions

record Candidate =
  idx :: int
  hits :: int

text \<open>
  The state of the hook: its React state variables (what the setters have written, the
  values of the next render) and its refs, the state of the platform's background
  location task with the log of calls made to it, and \<open>world\<close>, whatever the
  \<open>onArrive\<close> callback acts on.
\<close>

record 'w Tracking =
  isTracking :: bool
  distance :: "int option"
  isArrived :: bool
  currentStationIndex :: int
  nearestStationDistance :: "number option"
  trackingMode :: DynamicMode
  stationSwitchCandidate :: Candidate
  hasDepartedFromCurrentStation :: bool
  hasTriggeredArrivalNotification :: bool
  lineAverageSpacing :: "real option"
  taskStarted :: bool
  locationCalls :: "LocationCall list"
  world :: 'w

text \<open>
  An \<open>updateLocation\<close> callback is created in a render and closes over the values
  the state variables \<open>isTracking\<close> and \<open>currentStationIndex\<close> have in that render.
  It reads these values on every call, whatever the setters have written since; the refs
  it reads are the current ones.
\<close>

record Closure =
  closedIsTracking :: bool
  closedCurrentStationIndex :: int

text \<open>The closure of a callback created in the render that shows state \<open>t\<close>.\<close>

definition closureOf :: "'w Tracking \<Rightarrow> Closure" where
  "closureOf t =
     \<lparr>closedIsTracking = isTracking t, closedCurrentStationIndex = currentStationIndex t\<rparr>"

record 'w Params =
  selectedStation :: "Station option"
  selectedLine :: "TrainLine option"
  settings :: AppSettings
  onArrive :: "string \<Rightarrow> 'w \<Rightarrow> 'w"

datatype error = TypeError

definition resolveModeByDistance :: "real \<Rightarrow> DynamicMode" where
  "resolveModeByDistance targetDistance =
     (if targetDistance > DYNAMIC_FAR_DISTANCE then Far
      else if targetDistance > DYNAMIC_MID_DISTANCE then Mid
      else Near)"

text \<open>The \<open>baseOptions\<close> that subscribeWithMode computes from the mode.\<close>

definition baseOptionsOf :: "DynamicMode \<Rightarrow> LocationOptions" where
  "baseOptionsOf mode =
     (if mode = Far then
        \<lparr>accuracy = Balanced, timeInterval = GPS_INTERVAL_FAR_MS,
         distanceInterval = GPS_DISTANCE_FILTER_FAR\<rparr>
      else if mode = Mid then
        \<lparr>accuracy = High, timeInterval = GPS_INTERVAL_MID_MS,
         distanceInterval = GPS_DISTANCE_FILTER_FAR\<rparr>
      else
        \<lparr>accuracy = High, timeInterval = GPS_INTERVAL_NEAR_MS,
         distanceInterval = GPS_DISTANCE_FILTER_NEAR\<rparr>)"

text \<open>
  subscribeWithMode: records the mode, stops the background location task when it is
  running and starts it with the options of the mode. (The platform options merged in
  are the texts of the foreground-service notification and play no part here; the calls
  to the platform are taken to resolve.)
\<close>

definition subscribeWithMode :: "DynamicMode \<Rightarrow> 'w Tracking \<Rightarrow> 'w Tracking" where
  "subscribeWithMode mode t =
     (let t1 = t\<lparr>trackingMode := mode\<rparr>;
          baseOptions = baseOptionsOf mode;
          started = taskStarted t1;
          t2 = (if started
                then t1\<lparr>taskStarted := False,
                        locationCalls := locationCalls t1 @ [StopLocationUpdates]\<rparr>
                else t1)
      in t2\<lparr>taskStarted := True,
             locationCalls := locationCalls t2 @ [StartLocationUpdates baseOptions]\<rparr>)"

text \<open>The distance from a sample to a station.\<close>

definition distanceTo :: "LocationSample \<Rightarrow> Station \<Rightarrow> real" where
  "distanceTo sample station =
     getDistanceFromLatLonInMeters (sample_latitude sample) (sample_longitude sample)
       (latitude station) (longitude station)"

text \<open>
  updateLocation, first part (distance to the target, sampling mode, arrival state), for
  a selected station.
\<close>

definition arrivalStep ::
  "'w Params \<Rightarrow> Closure \<Rightarrow> Station \<Rightarrow> LocationSample \<Rightarrow> 'w Tracking \<Rightarrow> 'w Tracking" where
  "arrivalStep p c station sample t =
     (let dist = distanceTo sample station;
          t1 = t\<lparr>distance := Some \<lfloor>dist\<rfloor>\<rparr>;
          nextMode = resolveModeByDistance dist;
          t2 = (if nextMode \<noteq> trackingMode t1 \<and> closedIsTracking c
                then subscribeWithMode nextMode t1 else t1);
          baseArrivalThreshold =
            (case arrivalThreshold (settings p) of
               None \<Rightarrow> ARRIVAL_THRESHOLD_DEFAULT | Some b \<Rightarrow> b);
          effectiveArrivalThreshold =
            computeEffectiveArrivalThreshold baseArrivalThreshold (speedMps sample)
              (lineAverageSpacing t2);
          justArrivedThreshold = CURRENT_STATION_THRESHOLD;
          departThreshold = max (effectiveArrivalThreshold + 150) DEPARTURE_THRESHOLD
      in if dist \<le> justArrivedThreshold then
           (let t3 = t2\<lparr>isArrived := True\<rparr>
            in if \<not> hasTriggeredArrivalNotification t3
               then t3\<lparr>world := onArrive p (station_name station) (world t3),
                       hasTriggeredArrivalNotification := True\<rparr>
               else t3)
         else if dist \<le> effectiveArrivalThreshold then t2\<lparr>isArrived := True\<rparr>
         else if dist > departThreshold
         then t2\<lparr>isArrived := False, hasTriggeredArrivalNotification := False\<rparr>
         else t2)"

text \<open>
  \<open>stations[index]\<close>: \<open>undefined\<close> outside the array, and reading a field of
  \<open>undefined\<close> throws a TypeError.
\<close>

definition stationAt :: "Station list \<Rightarrow> int \<Rightarrow> error + Station" where
  "stationAt sts index =
     (if 0 \<le> index \<and> index < int (length sts) then Inr (sts ! nat index) else Inl TypeError)"

text \<open>The scan loop, from \<open>index\<close> up to \<open>end\<close> (written \<open>end'\<close>), with the running nearest index and minimum.\<close>

function scanLoop ::
  "LocationSample \<Rightarrow> Station list \<Rightarrow> int \<Rightarrow> int \<Rightarrow> int \<times> number \<Rightarrow> error + (int \<times> number)" where
  "scanLoop sample sts index end' (nearestIdx, minDistance) =
     (if index < end' then
        (case stationAt sts index of
           Inl e \<Rightarrow> Inl e
         | Inr station \<Rightarrow>
             (let stationDistance = distanceTo sample station
              in if number_less stationDistance minDistance
                 then scanLoop sample sts (index + 1) end' (index, Num stationDistance)
                 else scanLoop sample sts (index + 1) end' (nearestIdx, minDistance)))
      else Inr (nearestIdx, minDistance))"
  by pat_completeness auto
termination
  by (relation "measure (\<lambda>(sample, sts, index, end', acc). nat (end' - index))") auto

declare scanLoop.simps [simp del]

text \<open>
  The nearest-station search of updateLocation: the window around a known index on a
  line of more than 30 stations, the whole line otherwise.
\<close>

definition locateNearest :: "LocationSample \<Rightarrow> Station list \<Rightarrow> int \<Rightarrow> error + (int \<times> number)" where
  "locateNearest sample sts currentIdx =
     (let len = int (length sts);
          searchRange = 15;
          start = (if currentIdx \<ge> 0 \<and> len > 30 then max 0 (currentIdx - searchRange) else 0);
          end' = (if currentIdx \<ge> 0 \<and> len > 30 then min len (currentIdx + searchRange) else len);
          nearestIdx = (if currentIdx \<ge> 0 then currentIdx else 0)
      in scanLoop sample sts start end' (nearestIdx, Infinity))"

text \<open>
  The unwindowed scan the windowed search is compared with: the same loop over the
  whole station sequence.
\<close>

definition fullScan :: "LocationSample \<Rightarrow> Station list \<Rightarrow> int \<Rightarrow> error + (int \<times> number)" where
  "fullScan sample sts currentIdx =
     scanLoop sample sts 0 (int (length sts)) (if currentIdx \<ge> 0 then currentIdx else 0, Infinity)"

text \<open>updateLocation, last part: the debounced update of the current station index.\<close>

definition stationStep :: "Closure \<Rightarrow> int \<Rightarrow> number \<Rightarrow> 'w Tracking \<Rightarrow> 'w Tracking" where
  "stationStep c nearestIdx minDistance t0 =
     (let t = t0\<lparr>nearestStationDistance := Some (Math_floor minDistance)\<rparr>;
          currentIdx = closedCurrentStationIndex c
      in if currentIdx < 0 \<and> nearestIdx \<noteq> currentIdx then
           t\<lparr>currentStationIndex := nearestIdx,
             stationSwitchCandidate := \<lparr>idx = - 1, hits = 0\<rparr>,
             hasDepartedFromCurrentStation := False\<rparr>
         else if number_le minDistance STOPPED_STATION_THRESHOLD then
           (let t1 = (if nearestIdx = currentIdx
                      then t\<lparr>hasDepartedFromCurrentStation := False\<rparr> else t);
                t2 = (if idx (stationSwitchCandidate t1) = nearestIdx
                      then t1\<lparr>stationSwitchCandidate :=
                                (stationSwitchCandidate t1)
                                  \<lparr>hits := hits (stationSwitchCandidate t1) + 1\<rparr>\<rparr>
                      else t1\<lparr>stationSwitchCandidate := \<lparr>idx = nearestIdx, hits = 1\<rparr>\<rparr>);
                isAdjacent = (currentIdx < 0 \<or> \<bar>nearestIdx - currentIdx\<bar> \<le> 1);
                canSwitch = (hits (stationSwitchCandidate t2) \<ge> 2 \<and>
                             nearestIdx \<noteq> currentIdx \<and>
                             hasDepartedFromCurrentStation t2 \<and>
                             isAdjacent)
            in if canSwitch
               then t2\<lparr>currentStationIndex := nearestIdx,
                       stationSwitchCandidate := \<lparr>idx = - 1, hits = 0\<rparr>,
                       hasDepartedFromCurrentStation := False\<rparr>
               else t2)
         else t\<lparr>hasDepartedFromCurrentStation := True,
                stationSwitchCandidate := \<lparr>idx = - 1, hits = 0\<rparr>\<rparr>)"

text \<open>
  updateLocation, as the callback with closure \<open>c\<close>. The result pairs the outcome
  (\<open>None\<close> when the call completes, the error when it throws) with the state the call
  leaves: a throw inside the scan leaves the state of the first part.
\<close>

definition updateLocation ::
  "'w Params \<Rightarrow> Closure \<Rightarrow> LocationSample \<Rightarrow> 'w Tracking \<Rightarrow> error option \<times> 'w Tracking" where
  "updateLocation p c sample t =
     (case selectedStation p of
        None \<Rightarrow> (None, t)
      | Some station \<Rightarrow>
          (case selectedLine p of
             None \<Rightarrow> (None, t)
           | Some line \<Rightarrow>
               (let t1 = arrivalStep p c station sample t
                in case locateNearest sample (stations line) (closedCurrentStationIndex c) of
                     Inl e \<Rightarrow> (Some e, t1)
                   | Inr (nearestIdx, minDistance) \<Rightarrow>
                       (None, stationStep c nearestIdx minDistance t1))))"

text \<open>
  Feeding a sequence of samples, one after the other, to one and the same callback: the
  position watch is handed its callback once and calls it for every sample.
\<close>

fun feed :: "'w Params \<Rightarrow> Closure \<Rightarrow> LocationSample list \<Rightarrow> 'w Tracking \<Rightarrow> 'w Tracking" where
  "feed p c [] t = t"
| "feed p c (sample # rest) t = feed p c rest (snd (updateLocation p c sample t))"

text \<open>
  startTracking up to the subscription of the background task, with the permissions
  granted and the writes to the storage resolving: the average spacing of the line is
  cached, the flags are reset and the task is subscribed in mode Near. What follows in
  the source registers the foreground watch and handles the current position, both
  through the \<open>updateLocation\<close> that startTracking closed over.
\<close>

definition startTracking :: "'w Params \<Rightarrow> 'w Tracking \<Rightarrow> 'w Tracking" where
  "startTracking p t =
     (case selectedStation p of
        None \<Rightarrow> t
      | Some station \<Rightarrow>
          (case selectedLine p of
             None \<Rightarrow> t
           | Some line \<Rightarrow>
               subscribeWithMode Near
                 (t\<lparr>lineAverageSpacing := computeAverageStationSpacing (stations line),
                    isTracking := True, isArrived := False,
                    hasTriggeredArrivalNotification := False,
                    stationSwitchCandidate := \<lparr>idx = - 1, hits = 0\<rparr>,
                    hasDepartedFromCurrentStation := False\<rparr>)))"

text \<open>
  A tracking session started in the render that shows state \<open>t\<close>: startTracking runs,
  and every sample of the session (the current position first, then those of the watch)
  goes to the \<open>updateLocation\<close> of that same render, whose closure holds the values of
  \<open>t\<close>. The screen starts tracking only while \<open>isTracking\<close> is false.
\<close>

definition session :: "'w Params \<Rightarrow> LocationSample list \<Rightarrow> 'w Tracking \<Rightarrow> 'w Tracking" where
  "session p samples t = feed p (closureOf t) samples (startTracking p t)"

text \<open>A callback that only records the names it is called with.\<close>

definition recordCall :: "string \<Rightarrow> string list \<Rightarrow> string list" where
  "recordCall stationName calls = calls @ [stationName]"



text \<open>
  The departure threshold updateLocation computes for a sample: the effective arrival
  threshold plus 150, and at least DEPARTURE_THRESHOLD.
\<close>

definition departThresholdOf :: "AppSettings \<Rightarrow> LocationSample \<Rightarrow> real option \<Rightarrow> real" where
  "departThresholdOf st sample spacing =
     max (computeEffectiveArrivalThreshold
            (case arrivalThreshold st of None \<Rightarrow> ARRIVAL_THRESHOLD_DEFAULT | Some b \<Rightarrow> b)
            (speedMps sample) spacing + 150)
         DEPARTURE_THRESHOLD"

section \<open>The notification hook (hooks/useNotification.ts)\<close>

datatype PlatformOS = Android | Ios

record NotificationContent =
  title :: string
  body :: string
  sound :: "string option"
  vibrate :: "int list option"

text \<open>
  What the notification channel does during one call of sendNotification: every call
  resolves, or one of the three awaited calls throws.
\<close>

datatype ChannelOutcome =
  ChannelOk | CancelScheduledThrows | DismissThrows | ScheduleThrows

text \<open>
  The refs of the hook, and the notifications the channel presents. A timer is recorded
  by its delay in milliseconds.
\<close>

record Notifier =
  hasNotified :: bool
  lastNotificationTime :: int
  extraVibrationTimers :: "int list"
  presented :: "NotificationContent list"

definition NOTIFICATION_COOLDOWN_MS :: int where "NOTIFICATION_COOLDOWN_MS = 5000"
definition NOTIFICATION_PATTERN_DURATION_MS :: "PlatformOS \<Rightarrow> int" where
  "NOTIFICATION_PATTERN_DURATION_MS os = (if os = Android then 1800 else 1200)"
definition EXTRA_VIBRATION_ROUNDS :: nat where "EXTRA_VIBRATION_ROUNDS = 10"
definition EXTRA_VIBRATION_GAP_MS :: int where "EXTRA_VIBRATION_GAP_MS = 1200"
definition VIBRATION_PATTERN_STRONG :: "int list" where
  "VIBRATION_PATTERN_STRONG = [0, 800, 200, 800, 200, 800]"

text \<open>The title and the suffix of the body are Japanese texts, transliterated here.\<close>

definition NOTIFICATION_TITLE :: string where "NOTIFICATION_TITLE = ''mamonaku touchaku''"
definition NOTIFICATION_BODY_SUFFIX :: string where "NOTIFICATION_BODY_SUFFIX = '' fukin desu''"

text \<open>
  sendNotification, called at time \<open>now\<close> (the value of \<open>Date.now()\<close>) with the channel
  behaving as \<open>channel\<close>. The \<open>catch\<close> block unsets hasNotified and nothing else.
\<close>

definition sendNotification ::
  "AppSettings \<Rightarrow> PlatformOS \<Rightarrow> string \<Rightarrow> bool \<Rightarrow> int \<Rightarrow> ChannelOutcome \<Rightarrow> Notifier \<Rightarrow> Notifier" where
  "sendNotification st os stationName isHeadphonesConnected now channel n =
     (if hasNotified n then n
      else if now - lastNotificationTime n < NOTIFICATION_COOLDOWN_MS then n
      else
        (let n1 = n\<lparr>hasNotified := True, lastNotificationTime := now\<rparr> in
         case channel of
           CancelScheduledThrows \<Rightarrow> n1\<lparr>hasNotified := False\<rparr>
         | DismissThrows \<Rightarrow> n1\<lparr>hasNotified := False\<rparr>
         | ScheduleThrows \<Rightarrow> n1\<lparr>presented := [], hasNotified := False\<rparr>
         | ChannelOk \<Rightarrow>
             (let shouldPlaySound =
                    (if soundOnlyWithHeadphones st then isHeadphonesConnected else True);
                  content =
                    \<lparr>title = NOTIFICATION_TITLE,
                     body = stationName @ NOTIFICATION_BODY_SUFFIX,
                     sound = (if shouldPlaySound then Some ''default'' else None),
                     vibrate = (if os = Android \<and> vibrationEnabled st
                                then Some VIBRATION_PATTERN_STRONG else None)\<rparr>;
                  n2 = n1\<lparr>presented := [content]\<rparr>
              in if vibrationEnabled st
                 then n2\<lparr>extraVibrationTimers :=
                          map (\<lambda>index. (NOTIFICATION_PATTERN_DURATION_MS os + EXTRA_VIBRATION_GAP_MS)
                                         * (int index + 1))
                              [0..<EXTRA_VIBRATION_ROUNDS]\<rparr>
                 else n2)))"

text \<open>
  The onArrive callback the screen passes to the tracking hook (app/(tabs)/_layout.tsx):
  nothing without the notification permission, sendNotification otherwise. The promise
  of sendNotification is discarded, so the callback itself never throws.
\<close>

definition onArriveLayout ::
  "bool \<Rightarrow> bool \<Rightarrow> AppSettings \<Rightarrow> PlatformOS \<Rightarrow> int \<Rightarrow> ChannelOutcome \<Rightarrow> string \<Rightarrow> Notifier \<Rightarrow> Notifier" where
  "onArriveLayout hasNotificationPermission isHeadphonesConnected st os now channel stationName n =
     (if \<not> hasNotificationPermission then n
      else sendNotification st os stationName isHeadphonesConnected now channel n)"

section \<open>Example inputs\<close>

definition DEFAULT_SETTINGS :: AppSettings where
  "DEFAULT_SETTINGS =
     \<lparr>soundOnlyWithHeadphones = True, vibrationEnabled = True,
      arrivalThreshold = Some ARRIVAL_THRESHOLD_DEFAULT\<rparr>"

text \<open>The state of the hook before tracking starts: the initial values of its state and refs.\<close>

definition initialTracking :: "'w \<Rightarrow> 'w Tracking" where
  "initialTracking w =
     \<lparr>isTracking = False, distance = None, isArrived = False, currentStationIndex = - 1,
      nearestStationDistance = None, trackingMode = Near,
      stationSwitchCandidate = \<lparr>idx = - 1, hits = 0\<rparr>,
      hasDepartedFromCurrentStation = False, hasTriggeredArrivalNotification = False,
      lineAverageSpacing = None, taskStarted = False, locationCalls = [], world = w\<rparr>"

definition initialNotifier :: Notifier where
  "initialNotifier =
     \<lparr>hasNotified = False, lastNotificationTime = 0, extraVibrationTimers = [], presented = []\<rparr>"

definition lineOf :: "Station list \<Rightarrow> TrainLine" where
  "lineOf sts = \<lparr>line_id = ''l'', line_name = ''L'', stations = sts, color = ''#000000''\<rparr>"

text \<open>A sample on the equator, \<open>d\<close> meters east of station 0 of the equator line.\<close>

definition sampleAtDistance :: "real \<Rightarrow> real option \<Rightarrow> LocationSample" where
  "sampleAtDistance d speed =
     \<lparr>sample_latitude = 0, sample_longitude = d * 180 / (EARTH_RADIUS * pi), speedMps = speed\<rparr>"

subsection \<open>A line of 50 stations along the equator\<close>

text \<open>
  Station \<open>i\<close> lies on the equator at longitude \<open>i / 100\<close> degrees, about 1112 m from
  its neighbours; the sample stands on station 40.
\<close>

definition equatorStation :: "nat \<Rightarrow> Station" where
  "equatorStation i =
     \<lparr>station_id = ''s'', station_name = ''S'', latitude = 0, longitude = real i / 100\<rparr>"

definition equatorLine :: "Station list" where
  "equatorLine = map equatorStation [0..<50]"

definition sampleAtStation40 :: LocationSample where
  "sampleAtStation40 = \<lparr>sample_latitude = 0, sample_longitude = 40 / 100, speedMps = None\<rparr>"


text \<open>
  A session on the equator line with station 0 as the target, its callback recording
  the calls; and an approach from 5000 m down to 20 m.
\<close>

definition recordingParams :: "Station list \<Rightarrow> string list Params" where
  "recordingParams sts =
     \<lparr>selectedStation = Some (equatorStation 0), selectedLine = Some (lineOf sts),
      settings = DEFAULT_SETTINGS, onArrive = recordCall\<rparr>"

definition approachSamples :: "LocationSample list" where
  "approachSamples =
     [sampleAtDistance 5000 None, sampleAtDistance 3000 None, sampleAtDistance 1000 None,
      sampleAtDistance 140 None, sampleAtDistance 100 None, sampleAtDistance 50 None,
      sampleAtDistance 20 None]"


text \<open>A line of two stations on the equator, 700 m apart, the first being station 0.\<close>

definition stationEast :: "real \<Rightarrow> Station" where
  "stationEast d =
     \<lparr>station_id = ''e'', station_name = ''E'', latitude = 0,
      longitude = d * 180 / (EARTH_RADIUS * pi)\<rparr>"

definition line700 :: "Station list" where
  "line700 = [equatorStation 0, stationEast 700]"

text \<open>A sample on the equator at a given longitude, and a line of two stations.\<close>

definition equatorSample :: "real \<Rightarrow> LocationSample" where
  "equatorSample lon = \<lparr>sample_latitude = 0, sample_longitude = lon, speedMps = None\<rparr>"

definition twoStations :: "Station list" where
  "twoStations = [equatorStation 0, equatorStation 1]"

text \<open>
  A session whose callback is the one of the screen, with the notification permission
  granted, at a time when the channel throws while scheduling.
\<close>

definition failingParams :: "Notifier Params" where
  "failingParams =
     \<lparr>selectedStation = Some (equatorStation 0), selectedLine = Some (lineOf equatorLine),
      settings = DEFAULT_SETTINGS,
      onArrive = onArriveLayout True True DEFAULT_SETTINGS Android 100000 ScheduleThrows\<rparr>"

section \<open>The threshold tuner\<close>

lemma computeEffectiveArrivalThreshold_bounds:
  "220 \<le> computeEffectiveArrivalThreshold b sp av"
  "computeEffectiveArrivalThreshold b sp av \<le> 1300"
  by (simp_all add: computeEffectiveArrivalThreshold_def Let_def
      MIN_EFFECTIVE_THRESHOLD_def MAX_EFFECTIVE_THRESHOLD_def)

text \<open>
  Claim C3. For every base threshold, every speed (a number or unknown) and every average
  station spacing (a number or unknown), computeEffectiveArrivalThreshold returns
  base + speed adjustment + line adjustment, rounded to the nearest integer and then
  clamped to the interval from 220 to 1300; in particular the result lies between 220 and
  1300 meters.
\<close>

theorem C3_threshold_clamp:
  "computeEffectiveArrivalThreshold b sp av =
     (let r = real_of_int (round (b + getSpeedAdjustment sp + getLineAdjustment av))
      in if r < 220 then 220 else if r > 1300 then 1300 else r)
   \<and> 220 \<le> computeEffectiveArrivalThreshold b sp av
   \<and> computeEffectiveArrivalThreshold b sp av \<le> 1300"
proof -
  have clamp: "max 220 (min 1300 r) = (if r < 220 then 220 else if r > 1300 then 1300 else r)"
    for r :: real
    by (simp add: max_def min_def)
  have "computeEffectiveArrivalThreshold b sp av =
        max 220 (min 1300 (real_of_int (round (b + getSpeedAdjustment sp + getLineAdjustment av))))"
    by (simp only: computeEffectiveArrivalThreshold_def Let_def Math_round_def round_def
        MIN_EFFECTIVE_THRESHOLD_def MAX_EFFECTIVE_THRESHOLD_def)
  then have "computeEffectiveArrivalThreshold b sp av =
     (let r = real_of_int (round (b + getSpeedAdjustment sp + getLineAdjustment av))
      in if r < 220 then 220 else if r > 1300 then 1300 else r)"
    by (simp only: clamp Let_def)
  then show ?thesis
    using computeEffectiveArrivalThreshold_bounds [of b sp av] by blast
qed

lemma departThresholdOf_bounds:
  "600 \<le> departThresholdOf s smp sp" "departThresholdOf s smp sp \<le> 1450"
  using computeEffectiveArrivalThreshold_bounds
    [of "case arrivalThreshold s of None \<Rightarrow> ARRIVAL_THRESHOLD_DEFAULT | Some b \<Rightarrow> b" "speedMps smp" sp]
  by (simp_all add: departThresholdOf_def DEPARTURE_THRESHOLD_def)

section \<open>Geodesy\<close>

text \<open>
  Claim C9. The geodesy distance is symmetric in its two coordinates, and the distance
  from a coordinate to itself is zero.
\<close>

theorem C9_distance_symmetric_zero:
  "getDistanceFromLatLonInMeters lat1 lon1 lat2 lon2 =
     getDistanceFromLatLonInMeters lat2 lon2 lat1 lon1
   \<and> getDistanceFromLatLonInMeters lat1 lon1 lat1 lon1 = 0"
proof
  have sq: "sin ((y - x) * (pi / 180) / 2) * sin ((y - x) * (pi / 180) / 2) =
            sin ((x - y) * (pi / 180) / 2) * sin ((x - y) * (pi / 180) / 2)" for x y :: real
  proof -
    have "(y - x) * (pi / 180) / 2 = - ((x - y) * (pi / 180) / 2)"
      by (simp add: field_simps)
    then show ?thesis
      by (simp only: sin_minus minus_mult_minus)
  qed
  have gen: "p * p = p' * p' \<Longrightarrow> q * q = q' * q' \<Longrightarrow>
             p * p + c * d * q * q = p' * p' + d * c * q' * q'" for p p' q q' c d :: real
    by (metis mult.assoc mult.commute)
  have "sin ((lat2 - lat1) * (pi / 180) / 2) * sin ((lat2 - lat1) * (pi / 180) / 2) +
        cos (lat1 * (pi / 180)) * cos (lat2 * (pi / 180)) *
          sin ((lon2 - lon1) * (pi / 180) / 2) * sin ((lon2 - lon1) * (pi / 180) / 2) =
        sin ((lat1 - lat2) * (pi / 180) / 2) * sin ((lat1 - lat2) * (pi / 180) / 2) +
        cos (lat2 * (pi / 180)) * cos (lat1 * (pi / 180)) *
          sin ((lon1 - lon2) * (pi / 180) / 2) * sin ((lon1 - lon2) * (pi / 180) / 2)"
    by (rule gen [OF sq sq])
  then show "getDistanceFromLatLonInMeters lat1 lon1 lat2 lon2 =
        getDistanceFromLatLonInMeters lat2 lon2 lat1 lon1"
    by (simp only: getDistanceFromLatLonInMeters_def Let_def)
  show "getDistanceFromLatLonInMeters lat1 lon1 lat1 lon1 = 0"
    by (simp add: getDistanceFromLatLonInMeters_def Math_atan2_def)
qed

subsection \<open>Distances along the equator\<close>

text \<open>
  Between two points of the equator less than 180 degrees apart the haversine formula is
  the arc length: the radius times the difference of longitude in radians. This gives
  samples at exact distances for the concrete inputs below.
\<close>

lemma atan2_abs_sin_cos:
  assumes "\<bar>x\<bar> < pi / 2"
  shows "Math_atan2 (sqrt (sin x * sin x)) (sqrt (1 - sin x * sin x)) = \<bar>x\<bar>"
proof -
  have cpos: "cos x > 0"
    using assms by (intro cos_gt_zero_pi) auto
  have "1 - sin x * sin x = cos x * cos x"
    using sin_cos_squared_add [of x] by (simp add: power2_eq_square algebra_simps)
  then have s2: "sqrt (1 - sin x * sin x) = cos x"
    using cpos by simp
  have s1: "sqrt (sin x * sin x) = \<bar>sin x\<bar>"
    by simp
  have abs_sin: "\<bar>sin x\<bar> = sin \<bar>x\<bar>"
  proof (cases "x \<ge> 0")
    case True
    then have "sin x \<ge> 0" using assms by (intro sin_ge_zero) auto
    then show ?thesis using True by simp
  next
    case False
    then have "sin (- x) \<ge> 0" using assms by (intro sin_ge_zero) auto
    then show ?thesis using False by simp
  qed
  have "cos x = cos \<bar>x\<bar>" by simp
  then have "\<bar>sin x\<bar> / cos x = tan \<bar>x\<bar>"
    using abs_sin by (simp add: tan_def)
  then have "Math_atan2 \<bar>sin x\<bar> (cos x) = arctan (tan \<bar>x\<bar>)"
    using cpos by (simp add: Math_atan2_def)
  also have "\<dots> = \<bar>x\<bar>"
    using assms by (intro arctan_tan) auto
  finally show ?thesis
    by (simp only: s1 s2)
qed

lemma equator_distance:
  assumes "\<bar>lon2 - lon1\<bar> < 180"
  shows "getDistanceFromLatLonInMeters 0 lon1 0 lon2 = EARTH_RADIUS * (pi / 180) * \<bar>lon2 - lon1\<bar>"
proof -
  let ?x = "(lon2 - lon1) * (pi / 180) / 2"
  have "\<bar>?x\<bar> = \<bar>lon2 - lon1\<bar> * (pi / 360)"
    by (simp add: abs_mult)
  moreover have "\<bar>lon2 - lon1\<bar> * (pi / 360) < 180 * (pi / 360)"
    using assms by (intro mult_strict_right_mono) auto
  ultimately have bound: "\<bar>?x\<bar> < pi / 2" by simp
  have "getDistanceFromLatLonInMeters 0 lon1 0 lon2 =
        EARTH_RADIUS * 2 * Math_atan2 (sqrt (sin ?x * sin ?x)) (sqrt (1 - sin ?x * sin ?x))"
    by (simp add: getDistanceFromLatLonInMeters_def Let_def)
  also have "\<dots> = EARTH_RADIUS * 2 * \<bar>?x\<bar>"
    by (simp only: atan2_abs_sin_cos [OF bound])
  also have "\<dots> = EARTH_RADIUS * (pi / 180) * \<bar>lon2 - lon1\<bar>"
    by (simp add: abs_mult)
  finally show ?thesis .
qed

lemma sampleAtDistance_distance:
  assumes "0 \<le> d" "d < 6371000"
  shows "distanceTo (sampleAtDistance d speed) (equatorStation 0) = d"
proof -
  let ?lon = "d * 180 / (EARTH_RADIUS * pi)"
  have R: "EARTH_RADIUS = 6371000" by (simp add: EARTH_RADIUS_def)
  have lon0: "0 \<le> ?lon" using assms by (simp add: R)
  have "(6371000::real) * 2 \<le> 6371000 * pi"
    using pi_ge_two by simp
  then have "d < EARTH_RADIUS * pi"
    unfolding R using assms by linarith
  then have "?lon < 180"
    by (simp add: R field_simps)
  then have bound: "\<bar>0 - ?lon\<bar> < 180" using lon0 by simp
  have "distanceTo (sampleAtDistance d speed) (equatorStation 0) =
        getDistanceFromLatLonInMeters 0 ?lon 0 0"
    by (simp add: distanceTo_def sampleAtDistance_def equatorStation_def)
  also have "\<dots> = EARTH_RADIUS * (pi / 180) * \<bar>0 - ?lon\<bar>"
    by (rule equator_distance [OF bound])
  also have "\<dots> = EARTH_RADIUS * (pi / 180) * ?lon"
    by (simp only: diff_0 abs_minus_cancel abs_of_nonneg [OF lon0])
  also have "\<dots> = d"
    by (simp add: R)
  finally show ?thesis .
qed

lemma equatorSample_distance:
  assumes "\<bar>real i / 100 - lon\<bar> < 180"
  shows "distanceTo (equatorSample lon) (equatorStation i) =
         EARTH_RADIUS * (pi / 180) * \<bar>real i / 100 - lon\<bar>"
  using equator_distance [OF assms]
  by (simp add: distanceTo_def equatorSample_def equatorStation_def)

lemma equatorLine_distance:
  assumes "0 \<le> j" "j < 50"
  shows "distanceTo sampleAtStation40 (equatorLine ! nat j) =
         EARTH_RADIUS * (pi / 180) * (\<bar>real_of_int j - 40\<bar> / 100)"
proof -
  have nth: "equatorLine ! nat j = equatorStation (nat j)"
    using assms by (simp add: equatorLine_def)
  have r: "real (nat j) = real_of_int j" using assms by simp
  have bound: "\<bar>real_of_int j / 100 - 40 / 100\<bar> < 180" using assms by (simp add: abs_if)
  have eq: "\<bar>real_of_int j / 100 - 40 / 100\<bar> = \<bar>real_of_int j - 40\<bar> / 100"
    by (simp add: abs_if field_simps)
  have "distanceTo sampleAtStation40 (equatorLine ! nat j) =
        getDistanceFromLatLonInMeters 0 (40 / 100) 0 (real_of_int j / 100)"
    by (simp add: nth r distanceTo_def sampleAtStation40_def equatorStation_def)
  also have "\<dots> = EARTH_RADIUS * (pi / 180) * \<bar>real_of_int j / 100 - 40 / 100\<bar>"
    by (rule equator_distance [OF bound])
  also have "\<dots> = EARTH_RADIUS * (pi / 180) * (\<bar>real_of_int j - 40\<bar> / 100)"
    by (simp only: eq)
  finally show ?thesis .
qed

lemma equatorLine_distance_le:
  assumes "0 \<le> i" "i < 50" "0 \<le> j" "j < 50"
  shows "distanceTo sampleAtStation40 (equatorLine ! nat i) \<le>
         distanceTo sampleAtStation40 (equatorLine ! nat j) \<longleftrightarrow> \<bar>i - 40\<bar> \<le> \<bar>j - 40\<bar>"
proof -
  have c: "0 < EARTH_RADIUS * (pi / 180)" by (simp add: EARTH_RADIUS_def)
  have "distanceTo sampleAtStation40 (equatorLine ! nat i) \<le>
        distanceTo sampleAtStation40 (equatorLine ! nat j) \<longleftrightarrow>
        \<bar>real_of_int i - 40\<bar> / 100 \<le> \<bar>real_of_int j - 40\<bar> / 100"
    unfolding equatorLine_distance [OF assms(1,2)] equatorLine_distance [OF assms(3,4)]
    using c by (rule mult_le_cancel_left_pos)
  also have "\<dots> \<longleftrightarrow> \<bar>i - 40\<bar> \<le> \<bar>j - 40\<bar>"
    by (simp add: abs_if) linarith
  finally show ?thesis .
qed

lemma equatorLine_distance_less:
  assumes "0 \<le> i" "i < 50" "0 \<le> j" "j < 50"
  shows "distanceTo sampleAtStation40 (equatorLine ! nat i) <
         distanceTo sampleAtStation40 (equatorLine ! nat j) \<longleftrightarrow> \<bar>i - 40\<bar> < \<bar>j - 40\<bar>"
  using equatorLine_distance_le [OF assms(3,4) assms(1,2)] by linarith

section \<open>The nearest-station scan\<close>

text \<open>
  The scan loop completes whenever its range lies inside the array, and returns either
  the pair it started with (no station of the range is nearer than the starting minimum)
  or the first index of the range that attains the least distance.
\<close>

lemma scanLoop_result:
  "0 \<le> index \<Longrightarrow> end' \<le> int (length sts) \<Longrightarrow>
   \<exists>n m. scanLoop smp sts index end' acc = Inr (n, m) \<and>
     ((n = fst acc \<and> m = snd acc \<and>
        (\<forall>j. index \<le> j \<and> j < end' \<longrightarrow> \<not> number_less (distanceTo smp (sts ! nat j)) (snd acc))) \<or>
      (index \<le> n \<and> n < end' \<and> m = Num (distanceTo smp (sts ! nat n)) \<and>
        number_less (distanceTo smp (sts ! nat n)) (snd acc) \<and>
        (\<forall>j. index \<le> j \<and> j < n \<longrightarrow> distanceTo smp (sts ! nat n) < distanceTo smp (sts ! nat j)) \<and>
        (\<forall>j. n \<le> j \<and> j < end' \<longrightarrow> distanceTo smp (sts ! nat n) \<le> distanceTo smp (sts ! nat j))))"
proof (induction smp sts index end' acc rule: scanLoop.induct)
  case (1 sample sts index end' nearestIdx minDistance)
  let ?d = "\<lambda>j. distanceTo sample (sts ! nat j)"
  show ?case
  proof (cases "index < end'")
    case False
    then have "scanLoop sample sts index end' (nearestIdx, minDistance) = Inr (nearestIdx, minDistance)"
      by (subst scanLoop.simps) (simp add: Let_def)
    moreover have "\<forall>j. index \<le> j \<and> j < end' \<longrightarrow> \<not> number_less (?d j) minDistance"
      using False by auto
    ultimately show ?thesis by simp
  next
    case True
    then have at: "stationAt sts index = Inr (sts ! nat index)"
      using "1.prems" by (simp add: stationAt_def)
    show ?thesis
    proof (cases "number_less (?d index) minDistance")
      case less: True
      have step: "scanLoop sample sts index end' (nearestIdx, minDistance) =
                  scanLoop sample sts (index + 1) end' (index, Num (?d index))"
        using True at less by (subst scanLoop.simps) (simp add: Let_def)
      from "1.IH"(1) [OF True at refl less] "1.prems"
      obtain n m where r: "scanLoop sample sts (index + 1) end' (index, Num (?d index)) = Inr (n, m)"
        and alt: "(n = index \<and> m = Num (?d index) \<and>
            (\<forall>j. index + 1 \<le> j \<and> j < end' \<longrightarrow> \<not> number_less (?d j) (Num (?d index)))) \<or>
          (index + 1 \<le> n \<and> n < end' \<and> m = Num (?d n) \<and> number_less (?d n) (Num (?d index)) \<and>
            (\<forall>j. index + 1 \<le> j \<and> j < n \<longrightarrow> ?d n < ?d j) \<and>
            (\<forall>j. n \<le> j \<and> j < end' \<longrightarrow> ?d n \<le> ?d j))"
        by force
      from alt show ?thesis
      proof
        assume a: "n = index \<and> m = Num (?d index) \<and>
            (\<forall>j. index + 1 \<le> j \<and> j < end' \<longrightarrow> \<not> number_less (?d j) (Num (?d index)))"
        have "\<forall>j. n \<le> j \<and> j < end' \<longrightarrow> ?d n \<le> ?d j"
        proof (intro allI impI)
          fix j assume "n \<le> j \<and> j < end'"
          then consider "j = index" | "index + 1 \<le> j \<and> j < end'" using a by linarith
          then show "?d n \<le> ?d j" using a by cases auto
        qed
        then show ?thesis using a True less step r by auto
      next
        assume b: "index + 1 \<le> n \<and> n < end' \<and> m = Num (?d n) \<and> number_less (?d n) (Num (?d index)) \<and>
            (\<forall>j. index + 1 \<le> j \<and> j < n \<longrightarrow> ?d n < ?d j) \<and>
            (\<forall>j. n \<le> j \<and> j < end' \<longrightarrow> ?d n \<le> ?d j)"
        then have lt: "?d n < ?d index" by simp
        have nl: "number_less (?d n) minDistance"
          using lt less by (cases minDistance) auto
        have "\<forall>j. index \<le> j \<and> j < n \<longrightarrow> ?d n < ?d j"
        proof (intro allI impI)
          fix j assume "index \<le> j \<and> j < n"
          then consider "j = index" | "index + 1 \<le> j \<and> j < n" by linarith
          then show "?d n < ?d j" using b lt by cases auto
        qed
        then show ?thesis using b nl step r by auto
      qed
    next
      case nless: False
      have step: "scanLoop sample sts index end' (nearestIdx, minDistance) =
                  scanLoop sample sts (index + 1) end' (nearestIdx, minDistance)"
        using True at nless by (subst scanLoop.simps) (simp add: Let_def)
      from "1.IH"(2) [OF True at refl nless] "1.prems"
      obtain n m where r: "scanLoop sample sts (index + 1) end' (nearestIdx, minDistance) = Inr (n, m)"
        and alt: "(n = nearestIdx \<and> m = minDistance \<and>
            (\<forall>j. index + 1 \<le> j \<and> j < end' \<longrightarrow> \<not> number_less (?d j) minDistance)) \<or>
          (index + 1 \<le> n \<and> n < end' \<and> m = Num (?d n) \<and> number_less (?d n) minDistance \<and>
            (\<forall>j. index + 1 \<le> j \<and> j < n \<longrightarrow> ?d n < ?d j) \<and>
            (\<forall>j. n \<le> j \<and> j < end' \<longrightarrow> ?d n \<le> ?d j))"
        by force
      from alt show ?thesis
      proof
        assume a: "n = nearestIdx \<and> m = minDistance \<and>
            (\<forall>j. index + 1 \<le> j \<and> j < end' \<longrightarrow> \<not> number_less (?d j) minDistance)"
        have "\<forall>j. index \<le> j \<and> j < end' \<longrightarrow> \<not> number_less (?d j) minDistance"
        proof (intro allI impI)
          fix j assume "index \<le> j \<and> j < end'"
          then consider "j = index" | "index + 1 \<le> j \<and> j < end'" by linarith
          then show "\<not> number_less (?d j) minDistance" using a nless by cases auto
        qed
        then show ?thesis using a step r by auto
      next
        assume b: "index + 1 \<le> n \<and> n < end' \<and> m = Num (?d n) \<and> number_less (?d n) minDistance \<and>
            (\<forall>j. index + 1 \<le> j \<and> j < n \<longrightarrow> ?d n < ?d j) \<and>
            (\<forall>j. n \<le> j \<and> j < end' \<longrightarrow> ?d n \<le> ?d j)"
        have lt: "?d n < ?d index"
          using b nless by (cases minDistance) auto
        have "\<forall>j. index \<le> j \<and> j < n \<longrightarrow> ?d n < ?d j"
        proof (intro allI impI)
          fix j assume "index \<le> j \<and> j < n"
          then consider "j = index" | "index + 1 \<le> j \<and> j < n" by linarith
          then show "?d n < ?d j" using b lt by cases auto
        qed
        then show ?thesis using b step r by auto
      qed
    qed
  qed
qed

lemma locateNearest_completes:
  "\<exists>n m. locateNearest smp sts cur = Inr (n, m)"
proof -
  let ?len = "int (length sts)"
  let ?start = "if cur \<ge> 0 \<and> ?len > 30 then max 0 (cur - 15) else 0"
  let ?end = "if cur \<ge> 0 \<and> ?len > 30 then min ?len (cur + 15) else ?len"
  have "0 \<le> ?start" "?end \<le> ?len" by auto
  from scanLoop_result [OF this, of smp "(if cur \<ge> 0 then cur else 0, Infinity)"]
  show ?thesis
    unfolding locateNearest_def Let_def by blast
qed

lemma locateNearest_empty:
  "locateNearest smp [] cur = Inr (if cur \<ge> 0 then cur else 0, Infinity)"
  by (simp add: locateNearest_def Let_def scanLoop.simps)

text \<open>
  The window of the search on a long line is \<open>cur - 15 \<le> index < cur + 15\<close>: when the
  full scan's nearest index lies in it, the windowed search returns the same result.
\<close>

lemma windowed_agrees_inside_window:
  assumes full: "fullScan smp sts cur = Inr (n, m)"
    and hint: "0 \<le> cur" "int (length sts) > 30"
    and inside: "cur - 15 \<le> n" "n < cur + 15"
  shows "locateNearest smp sts cur = Inr (n, m)"
proof -
  let ?len = "int (length sts)"
  let ?d = "\<lambda>j. distanceTo smp (sts ! nat j)"
  let ?s = "max 0 (cur - 15)"
  let ?e = "min ?len (cur + 15)"
  have f: "scanLoop smp sts 0 ?len (cur, Infinity) = Inr (n, m)"
    using full hint by (simp add: fullScan_def)
  from scanLoop_result [of 0 ?len sts smp "(cur, Infinity)"] f
  have "(n = cur \<and> m = Infinity \<and> (\<forall>j. 0 \<le> j \<and> j < ?len \<longrightarrow> \<not> number_less (?d j) Infinity)) \<or>
        (0 \<le> n \<and> n < ?len \<and> m = Num (?d n) \<and>
         (\<forall>j. 0 \<le> j \<and> j < n \<longrightarrow> ?d n < ?d j) \<and> (\<forall>j. n \<le> j \<and> j < ?len \<longrightarrow> ?d n \<le> ?d j))"
    by auto
  moreover have "\<not> (\<forall>j. 0 \<le> j \<and> j < ?len \<longrightarrow> \<not> number_less (?d j) Infinity)"
  proof
    assume a: "\<forall>j. 0 \<le> j \<and> j < ?len \<longrightarrow> \<not> number_less (?d j) Infinity"
    have "0 \<le> (0::int) \<and> 0 < ?len" using hint(2) by linarith
    with a have "\<not> number_less (?d 0) Infinity" by blast
    then show False by simp
  qed
  ultimately have fn: "0 \<le> n" "n < ?len" "m = Num (?d n)"
    and flt: "\<forall>j. 0 \<le> j \<and> j < n \<longrightarrow> ?d n < ?d j"
    and fle: "\<forall>j. n \<le> j \<and> j < ?len \<longrightarrow> ?d n \<le> ?d j"
    by blast+
  have win: "?s \<le> n" "n < ?e" using inside fn by simp_all
  have loc: "locateNearest smp sts cur = scanLoop smp sts ?s ?e (cur, Infinity)"
    using hint by (simp add: locateNearest_def Let_def)
  have b: "0 \<le> ?s" "?e \<le> ?len" by simp_all
  from scanLoop_result [OF b, of smp "(cur, Infinity)"]
  obtain k r where w: "scanLoop smp sts ?s ?e (cur, Infinity) = Inr (k, r)"
    and alt: "(k = cur \<and> r = Infinity \<and> (\<forall>j. ?s \<le> j \<and> j < ?e \<longrightarrow> \<not> number_less (?d j) Infinity)) \<or>
        (?s \<le> k \<and> k < ?e \<and> r = Num (?d k) \<and>
         (\<forall>j. ?s \<le> j \<and> j < k \<longrightarrow> ?d k < ?d j) \<and> (\<forall>j. k \<le> j \<and> j < ?e \<longrightarrow> ?d k \<le> ?d j))"
    by auto
  have "\<not> (\<forall>j. ?s \<le> j \<and> j < ?e \<longrightarrow> \<not> number_less (?d j) Infinity)"
  proof
    assume a: "\<forall>j. ?s \<le> j \<and> j < ?e \<longrightarrow> \<not> number_less (?d j) Infinity"
    have "?s \<le> n \<and> n < ?e" using win by simp
    with a have "\<not> number_less (?d n) Infinity" by blast
    then show False by simp
  qed
  with alt have wk: "?s \<le> k" "k < ?e" "r = Num (?d k)"
    and wlt: "\<forall>j. ?s \<le> j \<and> j < k \<longrightarrow> ?d k < ?d j"
    and wle: "\<forall>j. k \<le> j \<and> j < ?e \<longrightarrow> ?d k \<le> ?d j"
    by blast+
  have "k = n"
  proof (rule ccontr)
    assume "k \<noteq> n"
    then consider "k < n" | "n < k" by linarith
    then show False
    proof cases
      case 1
      have "?d n < ?d k" using flt [rule_format, of k] 1 wk b by simp
      moreover have "?d k \<le> ?d n" using wle [rule_format, of n] 1 win by simp
      ultimately show False by simp
    next
      case 2
      have "?d k < ?d n" using wlt [rule_format, of n] 2 win by simp
      moreover have "?d n \<le> ?d k" using fle [rule_format, of k] 2 wk by simp
      ultimately show False by simp
    qed
  qed
  then show ?thesis using loc w wk(3) fn(3) by simp
qed

lemma windowed_at_40:
  "\<exists>m. locateNearest sampleAtStation40 equatorLine 25 = Inr (39, m)"
proof -
  have len: "int (length equatorLine) = 50" by (simp add: equatorLine_def)
  have loc: "locateNearest sampleAtStation40 equatorLine 25 =
             scanLoop sampleAtStation40 equatorLine 10 40 (25, Infinity)"
    by (simp add: locateNearest_def Let_def len)
  from scanLoop_result [of 10 40 equatorLine sampleAtStation40 "(25, Infinity)"] len
  obtain n m where r: "scanLoop sampleAtStation40 equatorLine 10 40 (25, Infinity) = Inr (n, m)"
    and b: "10 \<le> n" "n < 40"
    and mn: "\<forall>j. n \<le> j \<and> j < 40 \<longrightarrow>
          distanceTo sampleAtStation40 (equatorLine ! nat n) \<le>
          distanceTo sampleAtStation40 (equatorLine ! nat j)"
    by fastforce
  from mn [rule_format, of 39] b
  have "distanceTo sampleAtStation40 (equatorLine ! nat n) \<le>
          distanceTo sampleAtStation40 (equatorLine ! nat 39)" by linarith
  then have "\<bar>n - 40\<bar> \<le> \<bar>39 - 40 :: int\<bar>"
    using b by (subst (asm) equatorLine_distance_le) auto
  then have "n = 39" using b by simp
  then show ?thesis using loc r by simp
qed

lemma full_at_40:
  "\<exists>m. fullScan sampleAtStation40 equatorLine 25 = Inr (40, m)"
proof -
  have len: "int (length equatorLine) = 50" by (simp add: equatorLine_def)
  have loc: "fullScan sampleAtStation40 equatorLine 25 =
             scanLoop sampleAtStation40 equatorLine 0 50 (25, Infinity)"
    by (simp add: fullScan_def len)
  from scanLoop_result [of 0 50 equatorLine sampleAtStation40 "(25, Infinity)"] len
  obtain n m where r: "scanLoop sampleAtStation40 equatorLine 0 50 (25, Infinity) = Inr (n, m)"
    and b: "0 \<le> n" "n < 50"
    and lt: "\<forall>j. 0 \<le> j \<and> j < n \<longrightarrow>
          distanceTo sampleAtStation40 (equatorLine ! nat n) <
          distanceTo sampleAtStation40 (equatorLine ! nat j)"
    and mn: "\<forall>j. n \<le> j \<and> j < 50 \<longrightarrow>
          distanceTo sampleAtStation40 (equatorLine ! nat n) \<le>
          distanceTo sampleAtStation40 (equatorLine ! nat j)"
    by fastforce
  have "n = 40"
  proof (cases "n \<le> 40")
    case True
    with mn [rule_format, of 40]
    have "distanceTo sampleAtStation40 (equatorLine ! nat n) \<le>
          distanceTo sampleAtStation40 (equatorLine ! nat 40)" by linarith
    then have "\<bar>n - 40\<bar> \<le> \<bar>40 - 40 :: int\<bar>"
      using b by (subst (asm) equatorLine_distance_le) auto
    then show ?thesis by simp
  next
    case False
    with lt [rule_format, of 40] b
    have "distanceTo sampleAtStation40 (equatorLine ! nat n) <
          distanceTo sampleAtStation40 (equatorLine ! nat 40)" by linarith
    then have "\<bar>n - 40\<bar> < \<bar>40 - 40 :: int\<bar>"
      using b by (subst (asm) equatorLine_distance_less) auto
    then show ?thesis by simp
  qed
  then show ?thesis using loc r by simp
qed

text \<open>
  Claim C4, evaluated on the code. On the line of 50 stations with the hint 25 and the
  sample standing on station 40 (which is 15 past the hint), the full scan returns
  index 40, and the windowed search of updateLocation returns index 39: its loop runs
  over the indices 10 to 39 and never reads station 40.
\<close>

theorem C4_window_excludes_hint_plus_15:
  "map_sum id fst (locateNearest sampleAtStation40 equatorLine 25) = Inr 39 \<and>
   map_sum id fst (fullScan sampleAtStation40 equatorLine 25) = Inr 40"
proof -
  obtain m where "locateNearest sampleAtStation40 equatorLine 25 = Inr (39, m)"
    using windowed_at_40 by blast
  moreover obtain m' where "fullScan sampleAtStation40 equatorLine 25 = Inr (40, m')"
    using full_at_40 by blast
  ultimately show ?thesis by simp
qed

section \<open>The two parts of updateLocation\<close>

lemma arrivalStep_frame:
  "currentStationIndex (arrivalStep p c st smp t) = currentStationIndex t"
  "stationSwitchCandidate (arrivalStep p c st smp t) = stationSwitchCandidate t"
  "hasDepartedFromCurrentStation (arrivalStep p c st smp t) = hasDepartedFromCurrentStation t"
  "lineAverageSpacing (arrivalStep p c st smp t) = lineAverageSpacing t"
  "isTracking (arrivalStep p c st smp t) = isTracking t"
  by (simp_all add: arrivalStep_def Let_def subscribeWithMode_def)

lemma stationStep_frame:
  "world (stationStep c n m t) = world t"
  "hasTriggeredArrivalNotification (stationStep c n m t) = hasTriggeredArrivalNotification t"
  "isArrived (stationStep c n m t) = isArrived t"
  "lineAverageSpacing (stationStep c n m t) = lineAverageSpacing t"
  "isTracking (stationStep c n m t) = isTracking t"
  "trackingMode (stationStep c n m t) = trackingMode t"
  "locationCalls (stationStep c n m t) = locationCalls t"
  "taskStarted (stationStep c n m t) = taskStarted t"
  by (simp_all add: stationStep_def Let_def)

lemma updateLocation_selected:
  assumes "selectedStation p = Some st" "selectedLine p = Some line"
  shows "\<exists>n m. locateNearest smp (stations line) (closedCurrentStationIndex c) = Inr (n, m) \<and>
           updateLocation p c smp t = (None, stationStep c n m (arrivalStep p c st smp t))"
proof -
  obtain n m where "locateNearest smp (stations line) (closedCurrentStationIndex c) = Inr (n, m)"
    using locateNearest_completes by blast
  then show ?thesis
    using assms by (simp add: updateLocation_def Let_def)
qed

lemma updateLocation_arrival_fields:
  assumes "selectedStation p = Some st" "selectedLine p = Some line"
  shows "world (snd (updateLocation p c smp t)) = world (arrivalStep p c st smp t)"
    and "hasTriggeredArrivalNotification (snd (updateLocation p c smp t)) =
         hasTriggeredArrivalNotification (arrivalStep p c st smp t)"
    and "isArrived (snd (updateLocation p c smp t)) = isArrived (arrivalStep p c st smp t)"
    and "lineAverageSpacing (snd (updateLocation p c smp t)) = lineAverageSpacing t"
    and "isTracking (snd (updateLocation p c smp t)) = isTracking t"
    and "trackingMode (snd (updateLocation p c smp t)) = trackingMode (arrivalStep p c st smp t)"
    and "locationCalls (snd (updateLocation p c smp t)) = locationCalls (arrivalStep p c st smp t)"
    and "fst (updateLocation p c smp t) = None"
  using updateLocation_selected [OF assms, of smp c t]
  by (auto simp: stationStep_frame arrivalStep_frame)

lemma updateLocation_station_fields:
  assumes "selectedStation p = Some st" "selectedLine p = Some line"
    and "locateNearest smp (stations line) (closedCurrentStationIndex c) = Inr (k, m)"
  shows "currentStationIndex (snd (updateLocation p c smp t)) =
         currentStationIndex (stationStep c k m t)"
    and "stationSwitchCandidate (snd (updateLocation p c smp t)) =
         stationSwitchCandidate (stationStep c k m t)"
    and "hasDepartedFromCurrentStation (snd (updateLocation p c smp t)) =
         hasDepartedFromCurrentStation (stationStep c k m t)"
proof -
  from updateLocation_selected [OF assms(1,2), of smp c t] assms(3)
  have u: "updateLocation p c smp t = (None, stationStep c k m (arrivalStep p c st smp t))"
    by auto
  show "currentStationIndex (snd (updateLocation p c smp t)) =
        currentStationIndex (stationStep c k m t)"
    and "stationSwitchCandidate (snd (updateLocation p c smp t)) =
         stationSwitchCandidate (stationStep c k m t)"
    and "hasDepartedFromCurrentStation (snd (updateLocation p c smp t)) =
         hasDepartedFromCurrentStation (stationStep c k m t)"
    unfolding u by (auto simp: stationStep_def Let_def arrivalStep_frame)
qed

lemma arrivalStep_at_platform:
  assumes "distanceTo smp st \<le> 150"
  shows "hasTriggeredArrivalNotification (arrivalStep p c st smp t)"
    and "isArrived (arrivalStep p c st smp t)"
    and "world (arrivalStep p c st smp t) =
         (if hasTriggeredArrivalNotification t then world t
          else onArrive p (station_name st) (world t))"
  using assms
  by (simp_all add: arrivalStep_def Let_def subscribeWithMode_def CURRENT_STATION_THRESHOLD_def)

lemma arrivalStep_away:
  assumes "distanceTo smp st > 150"
  shows "world (arrivalStep p c st smp t) = world t"
    and "hasTriggeredArrivalNotification (arrivalStep p c st smp t) =
         (hasTriggeredArrivalNotification t \<and>
          distanceTo smp st \<le> departThresholdOf (settings p) smp (lineAverageSpacing t))"
  using assms
    computeEffectiveArrivalThreshold_bounds
      [of "case arrivalThreshold (settings p) of None \<Rightarrow> ARRIVAL_THRESHOLD_DEFAULT | Some b \<Rightarrow> b"
          "speedMps smp" "lineAverageSpacing t"]
  by (auto simp: arrivalStep_def Let_def subscribeWithMode_def CURRENT_STATION_THRESHOLD_def
      departThresholdOf_def DEPARTURE_THRESHOLD_def)

text \<open>
  What startTracking leaves, for a selected station and line.
\<close>

lemma startTracking_fields:
  assumes "selectedStation p = Some st" "selectedLine p = Some line"
  shows "world (startTracking p t) = world t"
    and "isTracking (startTracking p t)"
    and "\<not> isArrived (startTracking p t)"
    and "\<not> hasTriggeredArrivalNotification (startTracking p t)"
    and "\<not> hasDepartedFromCurrentStation (startTracking p t)"
    and "currentStationIndex (startTracking p t) = currentStationIndex t"
    and "trackingMode (startTracking p t) = Near"
    and "lineAverageSpacing (startTracking p t) = computeAverageStationSpacing (stations line)"
    and "locationCalls (startTracking p t) =
         locationCalls t @ (if taskStarted t then [StopLocationUpdates] else []) @
           [StartLocationUpdates (baseOptionsOf Near)]"
  using assms by (simp_all add: startTracking_def subscribeWithMode_def Let_def)

text \<open>
  Claim C5, as amended. On a line with no stations the nearest-station scan raises no
  error: it completes with the nearest index left at the hint (0 when the index is
  unknown) and the nearest distance left at Infinity, and updateLocation completes and
  stores Infinity as the nearest-station distance.
\<close>

theorem C5_empty_line_completes:
  "locateNearest sample [] currentIdx = Inr (if currentIdx \<ge> 0 then currentIdx else 0, Infinity) \<and>
   fst (updateLocation (p\<lparr>selectedStation := Some st, selectedLine := Some (lineOf [])\<rparr>) c sample t)
     = None \<and>
   nearestStationDistance
     (snd (updateLocation (p\<lparr>selectedStation := Some st, selectedLine := Some (lineOf [])\<rparr>) c sample t))
     = Some Infinity"
proof -
  let ?p = "p\<lparr>selectedStation := Some st, selectedLine := Some (lineOf [])\<rparr>"
  let ?k = "closedCurrentStationIndex c"
  have sel: "selectedStation ?p = Some st" "selectedLine ?p = Some (lineOf [])" by simp_all
  from updateLocation_selected [OF sel, of sample c t]
  have "updateLocation ?p c sample t =
        (None, stationStep c (if ?k \<ge> 0 then ?k else 0) Infinity (arrivalStep ?p c st sample t))"
    by (simp add: lineOf_def locateNearest_empty)
  then show ?thesis
    by (simp add: locateNearest_empty stationStep_def Let_def)
qed

text \<open>
  The counterexample to claim C5 as stated: the first sample of a session on a line with
  no stations. The scan returns index 0 and distance Infinity, updateLocation completes,
  and the current station index becomes 0.
\<close>

theorem C5_empty_line_counterexample:
  "locateNearest sampleAtStation40 [] (- 1) = Inr (0, Infinity) \<and>
   closedCurrentStationIndex (closureOf (initialTracking ([]::string list))) = - 1 \<and>
   fst (updateLocation (recordingParams []) (closureOf (initialTracking ([]::string list)))
          sampleAtStation40
          (startTracking (recordingParams []) (initialTracking []))) = None \<and>
   currentStationIndex (session (recordingParams []) [sampleAtStation40] (initialTracking [])) = 0 \<and>
   nearestStationDistance (session (recordingParams []) [sampleAtStation40] (initialTracking []))
     = Some Infinity"
proof -
  let ?p = "recordingParams []"
  let ?c = "closureOf (initialTracking ([]::string list))"
  let ?t = "startTracking ?p (initialTracking [])"
  have sel: "selectedStation ?p = Some (equatorStation 0)"
    "selectedLine ?p = Some (lineOf [])"
    by (simp_all add: recordingParams_def)
  have cur: "closedCurrentStationIndex ?c = - 1"
    by (simp add: closureOf_def initialTracking_def)
  from updateLocation_selected [OF sel, of sampleAtStation40 ?c ?t]
  have u: "updateLocation ?p ?c sampleAtStation40 ?t =
        (None, stationStep ?c 0 Infinity (arrivalStep ?p ?c (equatorStation 0) sampleAtStation40 ?t))"
    by (simp add: lineOf_def locateNearest_empty cur)
  have "currentStationIndex (snd (updateLocation ?p ?c sampleAtStation40 ?t)) = 0"
    "nearestStationDistance (snd (updateLocation ?p ?c sampleAtStation40 ?t)) = Some Infinity"
    "fst (updateLocation ?p ?c sampleAtStation40 ?t) = None"
    unfolding u by (simp_all add: stationStep_def Let_def cur)
  then show ?thesis
    by (simp add: session_def locateNearest_empty cur)
qed

section \<open>Arrival and the one-shot latch\<close>

lemma feed_latched_at_platform:
  assumes "selectedStation p = Some st" "selectedLine p = Some line"
    and "\<forall>s \<in> set ss. distanceTo s st \<le> 150"
    and "hasTriggeredArrivalNotification t"
  shows "world (feed p c ss t) = world t \<and> hasTriggeredArrivalNotification (feed p c ss t)"
  using assms(3,4)
proof (induction ss arbitrary: t)
  case Nil
  then show ?case by simp
next
  case (Cons s ss)
  let ?t = "snd (updateLocation p c s t)"
  have d: "distanceTo s st \<le> 150" using Cons.prems by simp
  have "hasTriggeredArrivalNotification ?t" "world ?t = world t"
    using arrivalStep_at_platform [OF d, of p c t] Cons.prems(2)
    by (simp_all add: updateLocation_arrival_fields [OF assms(1,2)])
  then show ?case
    using Cons.IH [of ?t] Cons.prems(1) by simp
qed

lemma feed_fires_once:
  assumes "selectedStation p = Some st" "selectedLine p = Some line"
    and "sorted_wrt (\<lambda>a b. distanceTo a st \<ge> distanceTo b st) ss"
    and "ss \<noteq> []" "distanceTo (last ss) st \<le> 150"
    and "\<not> hasTriggeredArrivalNotification t"
  shows "world (feed p c ss t) = onArrive p (station_name st) (world t)"
  using assms(3-6)
proof (induction ss arbitrary: t)
  case Nil
  then show ?case by simp
next
  case (Cons s ss)
  let ?t = "snd (updateLocation p c s t)"
  show ?case
  proof (cases "distanceTo s st \<le> 150")
    case True
    have rest: "\<forall>x \<in> set ss. distanceTo x st \<le> 150"
      using Cons.prems(1) True by auto
    have "hasTriggeredArrivalNotification ?t"
      "world ?t = onArrive p (station_name st) (world t)"
      using arrivalStep_at_platform [OF True, of p c t] Cons.prems(4)
      by (simp_all add: updateLocation_arrival_fields [OF assms(1,2)])
    then show ?thesis
      using feed_latched_at_platform [OF assms(1,2) rest, of ?t c] by simp
  next
    case False
    then have away: "distanceTo s st > 150" by simp
    have ne: "ss \<noteq> []" using Cons.prems(3) False by auto
    have step: "\<not> hasTriggeredArrivalNotification ?t" "world ?t = world t"
      using arrivalStep_away [OF away, of p c t] Cons.prems(4)
      by (simp_all add: updateLocation_arrival_fields [OF assms(1,2)])
    have "world (feed p c ss ?t) = onArrive p (station_name st) (world ?t)"
      using Cons.IH [of ?t] Cons.prems(1,3) ne step(1) by simp
    then show ?thesis using step(2) by simp
  qed
qed

text \<open>
  Claim C1. In a session with a target station on a non-empty line, let the samples fed
  to updateLocation have distances to the target that start at 5000 m, never increase,
  and end below the just-arrived threshold of 150 m. Then onArrive is invoked exactly
  once, with the name of the target, however many samples lie below the threshold,
  whatever the state of the session was before and whatever closure the callback has:
  the callback that records its calls has recorded exactly one more call.
\<close>

theorem C1_one_shot_arrival:
  assumes "selectedStation p = Some st" "selectedLine p = Some line" "stations line \<noteq> []"
    and "onArrive p = recordCall"
    and "samples \<noteq> []" "distanceTo (hd samples) st = 5000"
    and "sorted_wrt (\<lambda>a b. distanceTo a st \<ge> distanceTo b st) samples"
    and "distanceTo (last samples) st < CURRENT_STATION_THRESHOLD"
  shows "world (feed p c samples t) = world t @ [station_name st]"
proof -
  obtain s rest where samples: "samples = s # rest"
    using assms(5) by (cases samples) auto
  let ?t = "snd (updateLocation p c s t)"
  have d: "distanceTo s st = 5000" using assms(6) samples by simp
  have last_lt: "distanceTo (last samples) st < 150"
    using assms(8) by (simp add: CURRENT_STATION_THRESHOLD_def)
  have ne: "rest \<noteq> []"
    using last_lt d samples by auto
  have away: "distanceTo s st > 150" using d by simp
  have far: "\<not> distanceTo s st \<le> departThresholdOf (settings p) s (lineAverageSpacing t)"
    using departThresholdOf_bounds(2) [of "settings p" s "lineAverageSpacing t"] d by simp
  have step: "\<not> hasTriggeredArrivalNotification ?t" "world ?t = world t"
    using arrivalStep_away [OF away, of p c t] far
    by (simp_all add: updateLocation_arrival_fields [OF assms(1,2)])
  have "world (feed p c rest ?t) = onArrive p (station_name st) (world ?t)"
  proof (rule feed_fires_once [OF assms(1,2)])
    show "sorted_wrt (\<lambda>a b. distanceTo a st \<ge> distanceTo b st) rest"
      using assms(7) samples by simp
    show "rest \<noteq> []" by (rule ne)
    show "distanceTo (last rest) st \<le> 150"
      using last_lt samples ne by simp
    show "\<not> hasTriggeredArrivalNotification ?t" by (rule step(1))
  qed
  then show ?thesis
    using step(2) samples assms(4) by (simp add: recordCall_def)
qed

theorem C1_one_shot_arrival_witness:
  "distanceTo (hd approachSamples) (equatorStation 0) = 5000 \<and>
   distanceTo (last approachSamples) (equatorStation 0) < CURRENT_STATION_THRESHOLD \<and>
   world (session (recordingParams equatorLine) approachSamples (initialTracking [])) = [''S'']"
proof -
  let ?p = "recordingParams equatorLine"
  have sel: "selectedStation ?p = Some (equatorStation 0)"
    "selectedLine ?p = Some (lineOf equatorLine)"
    "onArrive ?p = recordCall"
    by (simp_all add: recordingParams_def)
  have ne: "stations (lineOf equatorLine) \<noteq> []"
    by (simp add: lineOf_def equatorLine_def)
  have h1: "approachSamples \<noteq> []" by (simp add: approachSamples_def)
  have h2: "distanceTo (hd approachSamples) (equatorStation 0) = 5000"
    by (simp add: approachSamples_def sampleAtDistance_distance)
  have h3: "sorted_wrt (\<lambda>a b. distanceTo a (equatorStation 0) \<ge> distanceTo b (equatorStation 0))
              approachSamples"
    by (simp add: approachSamples_def sampleAtDistance_distance)
  have h4: "distanceTo (last approachSamples) (equatorStation 0) < CURRENT_STATION_THRESHOLD"
    by (simp add: approachSamples_def sampleAtDistance_distance CURRENT_STATION_THRESHOLD_def)
  have "world (feed ?p (closureOf (initialTracking [])) approachSamples
                (startTracking ?p (initialTracking []))) =
        world (startTracking ?p (initialTracking [])) @ [station_name (equatorStation 0)]"
    by (rule C1_one_shot_arrival [OF sel(1,2) ne sel(3) h1 h2 h3 h4])
  then show ?thesis
    using h2 h4 startTracking_fields(1) [OF sel(1,2), of "initialTracking []"]
    by (simp add: session_def initialTracking_def equatorStation_def)
qed

lemma feed_latched_same_approach:
  assumes "selectedStation p = Some st" "selectedLine p = Some line"
    and "\<forall>s \<in> set later. distanceTo s st \<le> departThresholdOf (settings p) s (lineAverageSpacing t)"
    and "hasTriggeredArrivalNotification t"
  shows "world (feed p c later t) = world t \<and> hasTriggeredArrivalNotification (feed p c later t)"
  using assms(3,4)
proof (induction later arbitrary: t)
  case Nil
  then show ?case by simp
next
  case (Cons s later)
  let ?t = "snd (updateLocation p c s t)"
  have d: "distanceTo s st \<le> departThresholdOf (settings p) s (lineAverageSpacing t)"
    using Cons.prems(1) by simp
  have sp: "lineAverageSpacing ?t = lineAverageSpacing t"
    by (rule updateLocation_arrival_fields(4) [OF assms(1,2)])
  have step: "hasTriggeredArrivalNotification ?t \<and> world ?t = world t"
  proof (cases "distanceTo s st \<le> 150")
    case True
    then show ?thesis
      using arrivalStep_at_platform [OF True, of p c t] Cons.prems(2)
      by (simp add: updateLocation_arrival_fields [OF assms(1,2)])
  next
    case False
    then have away: "distanceTo s st > 150" by simp
    show ?thesis
      using arrivalStep_away [OF away, of p c t] Cons.prems(2) d
      by (simp add: updateLocation_arrival_fields [OF assms(1,2)])
  qed
  have "world (feed p c later ?t) = world ?t \<and> hasTriggeredArrivalNotification (feed p c later ?t)"
    using Cons.IH [of ?t] Cons.prems(1) step sp by simp
  then show ?case using step by simp
qed

text \<open>
  Claim C10. On a sample at or below the just-arrived threshold with the latch unset,
  updateLocation calls onArrive once and sets hasTriggeredArrivalNotification, whatever
  the callback does to its own state (a notification sent, a send that throws, a send
  rejected by the cooldown or by a missing permission). While the later samples stay at
  or below the departure threshold, the latch stays set and onArrive is not called
  again. The witness runs the callback of the screen with a channel that throws: the
  latch is set although no notification is presented.
\<close>

theorem C10_latch_set_regardless_of_dispatch:
  assumes "selectedStation p = Some st" "selectedLine p = Some line"
    and "distanceTo sample st \<le> CURRENT_STATION_THRESHOLD"
    and "\<not> hasTriggeredArrivalNotification t"
  shows "hasTriggeredArrivalNotification (snd (updateLocation p c sample t)) \<and>
         world (snd (updateLocation p c sample t)) = onArrive p (station_name st) (world t) \<and>
         (\<forall>later.
            (\<forall>s \<in> set later.
               distanceTo s st \<le> departThresholdOf (settings p) s (lineAverageSpacing t)) \<longrightarrow>
            world (feed p c later (snd (updateLocation p c sample t))) =
              world (snd (updateLocation p c sample t)) \<and>
            hasTriggeredArrivalNotification (feed p c later (snd (updateLocation p c sample t))))"
proof -
  let ?t = "snd (updateLocation p c sample t)"
  have d: "distanceTo sample st \<le> 150"
    using assms(3) by (simp add: CURRENT_STATION_THRESHOLD_def)
  have latch: "hasTriggeredArrivalNotification ?t"
    and w: "world ?t = onArrive p (station_name st) (world t)"
    using arrivalStep_at_platform [OF d, of p c t] assms(4)
    by (simp_all add: updateLocation_arrival_fields [OF assms(1,2)])
  have sp: "lineAverageSpacing ?t = lineAverageSpacing t"
    by (rule updateLocation_arrival_fields(4) [OF assms(1,2)])
  have "world (feed p c later ?t) = world ?t \<and> hasTriggeredArrivalNotification (feed p c later ?t)"
    if "\<forall>s \<in> set later.
          distanceTo s st \<le> departThresholdOf (settings p) s (lineAverageSpacing t)" for later
    using feed_latched_same_approach [OF assms(1,2), of later ?t c] that latch sp by simp
  then show ?thesis using latch w by blast
qed

theorem C10_latch_set_regardless_of_dispatch_witness:
  "distanceTo (sampleAtDistance 100 None) (equatorStation 0) \<le> CURRENT_STATION_THRESHOLD \<and>
   \<not> hasTriggeredArrivalNotification (startTracking failingParams (initialTracking initialNotifier)) \<and>
   hasTriggeredArrivalNotification
     (session failingParams [sampleAtDistance 100 None] (initialTracking initialNotifier)) \<and>
   presented (world (session failingParams [sampleAtDistance 100 None]
       (initialTracking initialNotifier))) = [] \<and>
   \<not> hasNotified (world (session failingParams [sampleAtDistance 100 None]
       (initialTracking initialNotifier))) \<and>
   world (session failingParams
       [sampleAtDistance 100 None, sampleAtDistance 50 None, sampleAtDistance 400 None,
        sampleAtDistance 120 None]
       (initialTracking initialNotifier)) =
     world (session failingParams [sampleAtDistance 100 None] (initialTracking initialNotifier))"
proof -
  let ?p = failingParams
  let ?c = "closureOf (initialTracking initialNotifier)"
  let ?s = "sampleAtDistance 100 None"
  let ?t = "startTracking failingParams (initialTracking initialNotifier)"
  let ?later = "[sampleAtDistance 50 None, sampleAtDistance 400 None, sampleAtDistance 120 None]"
  have sel: "selectedStation ?p = Some (equatorStation 0)"
    "selectedLine ?p = Some (lineOf equatorLine)"
    by (simp_all add: failingParams_def)
  have d: "distanceTo ?s (equatorStation 0) \<le> CURRENT_STATION_THRESHOLD"
    by (simp add: sampleAtDistance_distance CURRENT_STATION_THRESHOLD_def)
  have t: "\<not> hasTriggeredArrivalNotification ?t" "world ?t = initialNotifier"
    using startTracking_fields(1,4) [OF sel, of "initialTracking initialNotifier"]
    by (simp_all add: initialTracking_def)
  have later: "\<forall>s \<in> set ?later.
      distanceTo s (equatorStation 0) \<le> departThresholdOf (settings ?p) s (lineAverageSpacing ?t)"
  proof
    fix s assume "s \<in> set ?later"
    then have "distanceTo s (equatorStation 0) \<le> 600"
      by (auto simp: sampleAtDistance_distance)
    then show "distanceTo s (equatorStation 0) \<le>
        departThresholdOf (settings ?p) s (lineAverageSpacing ?t)"
      using departThresholdOf_bounds(1) [of "settings ?p" s "lineAverageSpacing ?t"] by linarith
  qed
  note inst = C10_latch_set_regardless_of_dispatch [OF sel d t(1), of ?c]
  have w: "world (snd (updateLocation ?p ?c ?s ?t)) =
           onArrive ?p (station_name (equatorStation 0)) (world ?t)"
    using inst by blast
  have cb: "onArrive ?p (station_name (equatorStation 0)) initialNotifier =
            initialNotifier\<lparr>lastNotificationTime := 100000\<rparr>"
    by (simp add: failingParams_def onArriveLayout_def sendNotification_def initialNotifier_def
        NOTIFICATION_COOLDOWN_MS_def Let_def)
  have "world (feed ?p ?c ?later (snd (updateLocation ?p ?c ?s ?t))) =
        world (snd (updateLocation ?p ?c ?s ?t))"
    using inst later by blast
  moreover have "hasTriggeredArrivalNotification (snd (updateLocation ?p ?c ?s ?t))"
    using inst by blast
  ultimately show ?thesis
    using d t w cb by (simp add: session_def initialNotifier_def)
qed

text \<open>
  Claim C6. With base threshold 300, speed 0 and average spacing 700 the effective
  arrival threshold is 220. A sample 250 m from the target is above it and not above the
  departure threshold, and leaves the arrived flag and the one-shot latch as they were
  (and calls nothing).
\<close>

theorem C6_hysteresis_band:
  "computeEffectiveArrivalThreshold 300 (Some 0) (Some 700) = 220 \<and>
   (selectedStation p = Some st \<longrightarrow> selectedLine p = Some line \<longrightarrow>
    arrivalThreshold (settings p) = Some 300 \<longrightarrow> speedMps sample = Some 0 \<longrightarrow>
    lineAverageSpacing t = Some 700 \<longrightarrow> distanceTo sample st = 250 \<longrightarrow>
      250 > computeEffectiveArrivalThreshold 300 (speedMps sample) (lineAverageSpacing t) \<and>
      250 \<le> departThresholdOf (settings p) sample (lineAverageSpacing t) \<and>
      isArrived (snd (updateLocation p c sample t)) = isArrived t \<and>
      hasTriggeredArrivalNotification (snd (updateLocation p c sample t)) =
        hasTriggeredArrivalNotification t \<and>
      world (snd (updateLocation p c sample t)) = world t)"
proof -
  have eff: "computeEffectiveArrivalThreshold 300 (Some 0) (Some 700) = 220"
    by (simp add: computeEffectiveArrivalThreshold_def getSpeedAdjustment_def
        getLineAdjustment_def Math_round_def MIN_EFFECTIVE_THRESHOLD_def
        MAX_EFFECTIVE_THRESHOLD_def)
  have band: "isArrived (arrivalStep p c st sample t) = isArrived t \<and>
      hasTriggeredArrivalNotification (arrivalStep p c st sample t) =
        hasTriggeredArrivalNotification t \<and>
      world (arrivalStep p c st sample t) = world t"
    if "arrivalThreshold (settings p) = Some 300" "speedMps sample = Some 0"
      "lineAverageSpacing t = Some 700" "distanceTo sample st = 250"
    using that eff
    by (simp add: arrivalStep_def Let_def subscribeWithMode_def CURRENT_STATION_THRESHOLD_def
        DEPARTURE_THRESHOLD_def)
  show ?thesis
    using eff band
    by (auto simp: updateLocation_arrival_fields departThresholdOf_def DEPARTURE_THRESHOLD_def)
qed

lemma line700_spacing:
  "computeAverageStationSpacing line700 = Some 700"
proof -
  let ?lon = "700 * 180 / (EARTH_RADIUS * pi)"
  have R: "EARTH_RADIUS = 6371000" by (simp add: EARTH_RADIUS_def)
  have "(6371000::real) * 2 \<le> 6371000 * pi" using pi_ge_two by simp
  then have "(700::real) < EARTH_RADIUS * pi" unfolding R by linarith
  then have lt: "?lon < 180" by (simp add: R field_simps)
  have lon0: "0 \<le> ?lon" by (simp add: R)
  have bound: "\<bar>?lon - 0\<bar> < 180" using lt lon0 by simp
  have "getDistanceFromLatLonInMeters 0 0 0 ?lon = EARTH_RADIUS * (pi / 180) * \<bar>?lon - 0\<bar>"
    by (rule equator_distance [OF bound])
  also have "\<dots> = EARTH_RADIUS * (pi / 180) * ?lon"
    by (simp only: diff_zero abs_of_nonneg [OF lon0])
  also have "\<dots> = 700" by (simp add: R)
  finally have seg: "getDistanceFromLatLonInMeters 0 0 0 ?lon = 700" .
  have "spacingLoop (equatorStation 0) [stationEast 700] (0, 0) = (700, 1)"
    using seg
    by (simp add: equatorStation_def stationEast_def getDistanceFromLatLonInMeters_def Let_def R)
  then show ?thesis
    by (simp add: computeAverageStationSpacing_def line700_def)
qed

theorem C6_hysteresis_band_witness:
  "distanceTo (sampleAtDistance 250 (Some 0)) (equatorStation 0) = 250 \<and>
   lineAverageSpacing (startTracking (recordingParams line700) (initialTracking [])) = Some 700 \<and>
   \<not> isArrived (startTracking (recordingParams line700) (initialTracking [])) \<and>
   \<not> hasTriggeredArrivalNotification (startTracking (recordingParams line700) (initialTracking [])) \<and>
   \<not> isArrived (session (recordingParams line700) [sampleAtDistance 250 (Some 0)]
          (initialTracking [])) \<and>
   \<not> hasTriggeredArrivalNotification (session (recordingParams line700)
          [sampleAtDistance 250 (Some 0)] (initialTracking [])) \<and>
   world (session (recordingParams line700) [sampleAtDistance 250 (Some 0)]
          (initialTracking [])) = []"
proof -
  let ?p = "recordingParams line700"
  let ?c = "closureOf (initialTracking ([]::string list))"
  let ?s = "sampleAtDistance 250 (Some 0)"
  let ?t = "startTracking ?p (initialTracking ([]::string list))"
  have sel: "selectedStation ?p = Some (equatorStation 0)"
    "selectedLine ?p = Some (lineOf line700)"
    "arrivalThreshold (settings ?p) = Some 300"
    by (simp_all add: recordingParams_def DEFAULT_SETTINGS_def ARRIVAL_THRESHOLD_DEFAULT_def)
  have sp: "speedMps ?s = Some 0" by (simp add: sampleAtDistance_def)
  have t: "lineAverageSpacing ?t = Some 700" "\<not> isArrived ?t"
    "\<not> hasTriggeredArrivalNotification ?t" "world ?t = []"
    using startTracking_fields [OF sel(1,2), of "initialTracking []"]
    by (simp_all add: lineOf_def line700_spacing initialTracking_def)
  have d: "distanceTo ?s (equatorStation 0) = 250"
    by (simp add: sampleAtDistance_distance)
  from C6_hysteresis_band [where p = ?p and st = "equatorStation 0" and line = "lineOf line700"
      and sample = ?s and t = ?t and c = ?c] sel sp t(1) d
  have "isArrived (snd (updateLocation ?p ?c ?s ?t)) = isArrived ?t \<and>
        hasTriggeredArrivalNotification (snd (updateLocation ?p ?c ?s ?t)) =
          hasTriggeredArrivalNotification ?t \<and>
        world (snd (updateLocation ?p ?c ?s ?t)) = world ?t"
    by blast
  then show ?thesis
    using d t by (simp add: session_def)
qed

section \<open>The sampling mode\<close>

lemma resolveModeByDistance_tiers:
  "resolveModeByDistance d = Far \<longleftrightarrow> d > 5000"
  "resolveModeByDistance d = Mid \<longleftrightarrow> 2000 < d \<and> d \<le> 5000"
  "resolveModeByDistance d = Near \<longleftrightarrow> d \<le> 2000"
  by (simp_all add: resolveModeByDistance_def DYNAMIC_FAR_DISTANCE_def DYNAMIC_MID_DISTANCE_def)

text \<open>
  A callback whose closure holds \<open>isTracking = true\<close> restarts the background task
  exactly when the computed tier differs from the active one.
\<close>

lemma resubscribes_when_closure_tracking:
  assumes "selectedStation p = Some st" "selectedLine p = Some line" "closedIsTracking c"
  shows "locationCalls (snd (updateLocation p c sample t)) =
           locationCalls t @
             (if resolveModeByDistance (distanceTo sample st) \<noteq> trackingMode t
              then (if taskStarted t then [StopLocationUpdates] else []) @
                   [StartLocationUpdates (baseOptionsOf (resolveModeByDistance (distanceTo sample st)))]
              else [])"
    and "trackingMode (snd (updateLocation p c sample t)) =
         resolveModeByDistance (distanceTo sample st)"
  using assms(3)
  by (simp_all add: updateLocation_arrival_fields [OF assms(1,2)] arrivalStep_def Let_def
      subscribeWithMode_def)

text \<open>
  A callback whose closure holds \<open>isTracking = false\<close> never calls subscribeWithMode:
  the log of calls to the task and the active tier stay as they are, whatever the
  distances. This is the callback of every session, since startTracking runs in a
  render where isTracking is false.
\<close>

lemma never_resubscribes_when_closure_not_tracking:
  assumes "selectedStation p = Some st" "selectedLine p = Some line" "\<not> closedIsTracking c"
  shows "locationCalls (feed p c samples t) = locationCalls t \<and>
         trackingMode (feed p c samples t) = trackingMode t"
proof (induction samples arbitrary: t)
  case Nil
  then show ?case by simp
next
  case (Cons s samples)
  have "locationCalls (snd (updateLocation p c s t)) = locationCalls t"
    "trackingMode (snd (updateLocation p c s t)) = trackingMode t"
    using assms(3)
    by (simp_all add: updateLocation_arrival_fields [OF assms(1,2)] arrivalStep_def Let_def)
  then show ?case using Cons.IH [of "snd (updateLocation p c s t)"] by simp
qed

lemma session_never_resubscribes:
  assumes "selectedStation p = Some st" "selectedLine p = Some line" "\<not> isTracking t"
  shows "locationCalls (session p samples t) = locationCalls (startTracking p t) \<and>
         trackingMode (session p samples t) = Near"
  using never_resubscribes_when_closure_not_tracking
      [OF assms(1,2), of "closureOf t" samples "startTracking p t"]
    assms(3) startTracking_fields(7) [OF assms(1,2), of t]
  by (simp add: session_def closureOf_def)

text \<open>
  Claim C8, evaluated on the code. A session on the equator line starts in the tier Near;
  its first sample is 3000 m from the target, so the computed tier is Mid and differs
  from the active tier while the session is tracking. The task is not restarted: the
  only call in the log is the one startTracking made, and the active tier is still Near.
\<close>

theorem C8_tier_change_without_resubscription:
  "resolveModeByDistance (distanceTo (sampleAtDistance 3000 None) (equatorStation 0)) = Mid \<and>
   isTracking (startTracking (recordingParams equatorLine) (initialTracking [])) \<and>
   trackingMode (startTracking (recordingParams equatorLine) (initialTracking [])) = Near \<and>
   locationCalls (session (recordingParams equatorLine) [sampleAtDistance 3000 None]
       (initialTracking [])) = [StartLocationUpdates (baseOptionsOf Near)] \<and>
   trackingMode (session (recordingParams equatorLine) [sampleAtDistance 3000 None]
       (initialTracking [])) = Near"
proof -
  let ?p = "recordingParams equatorLine"
  let ?t = "initialTracking ([]::string list)"
  have sel: "selectedStation ?p = Some (equatorStation 0)"
    "selectedLine ?p = Some (lineOf equatorLine)"
    by (simp_all add: recordingParams_def)
  have idle: "\<not> isTracking ?t" "locationCalls ?t = []" "\<not> taskStarted ?t"
    by (simp_all add: initialTracking_def)
  have tier: "resolveModeByDistance (distanceTo (sampleAtDistance 3000 None) (equatorStation 0)) = Mid"
    by (simp add: sampleAtDistance_distance resolveModeByDistance_tiers)
  have started: "isTracking (startTracking ?p ?t)" "trackingMode (startTracking ?p ?t) = Near"
    "locationCalls (startTracking ?p ?t) = [StartLocationUpdates (baseOptionsOf Near)]"
    using startTracking_fields [OF sel, of ?t] idle by simp_all
  show ?thesis
    using tier started session_never_resubscribes [OF sel idle(1), of "[sampleAtDistance 3000 None]"]
    by simp
qed

section \<open>The debounced station index\<close>

text \<open>
  A callback whose closure holds an unknown index adopts the nearest station at once.
\<close>

lemma stationStep_cold_start:
  assumes "closedCurrentStationIndex c < 0" "0 \<le> k"
  shows "currentStationIndex (stationStep c k m t) = k"
    and "stationSwitchCandidate (stationStep c k m t) = \<lparr>idx = - 1, hits = 0\<rparr>"
    and "\<not> hasDepartedFromCurrentStation (stationStep c k m t)"
  using assms by (simp_all add: stationStep_def Let_def)

text \<open>
  A callback whose closure holds a known index \<open>N\<close> sets the index to a nearest station
  \<open>k\<close> other than \<open>N\<close> exactly when the nearest distance is within 75 m, the candidate
  count reaches 2, the departed flag is set and \<open>k\<close> is adjacent to \<open>N\<close>.
\<close>

lemma stationStep_switch_iff:
  assumes "0 \<le> closedCurrentStationIndex c" "k \<noteq> closedCurrentStationIndex c"
  shows "currentStationIndex (stationStep c k m t) =
           (if number_le m STOPPED_STATION_THRESHOLD \<and>
               (if idx (stationSwitchCandidate t) = k
                then hits (stationSwitchCandidate t) + 1 else 1) \<ge> 2 \<and>
               hasDepartedFromCurrentStation t \<and>
               \<bar>k - closedCurrentStationIndex c\<bar> \<le> 1
            then k else currentStationIndex t)"
  using assms by (auto simp: stationStep_def Let_def)

lemma locate_at_station_1:
  "locateNearest (equatorSample (1 / 100)) twoStations 0 = Inr (1, Num 0)"
  "locateNearest (equatorSample (1 / 100)) twoStations (- 1) = Inr (1, Num 0)"
proof -
  have d0: "distanceTo (equatorSample (1 / 100)) (equatorStation 0) =
            EARTH_RADIUS * (pi / 180) * (1 / 100)"
    using equatorSample_distance [of 0 "1 / 100"] by simp
  have d1: "distanceTo (equatorSample (1 / 100)) (equatorStation (Suc 0)) = 0"
    using equatorSample_distance [of "Suc 0" "1 / 100"] by simp
  have pos: "0 < EARTH_RADIUS * (pi / 180) * (1 / 100)"
    by (simp add: EARTH_RADIUS_def)
  have "scanLoop (equatorSample (1 / 100)) twoStations 0 2 (0, Infinity) = Inr (1, Num 0)"
    using pos
    by (simp add: scanLoop.simps [of _ _ _ "2"] stationAt_def twoStations_def Let_def d0 d1)
  then show "locateNearest (equatorSample (1 / 100)) twoStations 0 = Inr (1, Num 0)"
    "locateNearest (equatorSample (1 / 100)) twoStations (- 1) = Inr (1, Num 0)"
    by (simp_all add: locateNearest_def Let_def twoStations_def)
qed

lemma locate_at_station_0:
  "locateNearest (equatorSample 0) twoStations (- 1) = Inr (0, Num 0)"
proof -
  have d0: "distanceTo (equatorSample 0) (equatorStation 0) = 0"
    using equatorSample_distance [of 0 0] by simp
  have d1: "distanceTo (equatorSample 0) (equatorStation (Suc 0)) =
            EARTH_RADIUS * (pi / 180) * (1 / 100)"
    using equatorSample_distance [of "Suc 0" 0] by simp
  have pos: "0 < EARTH_RADIUS * (pi / 180) * (1 / 100)"
    by (simp add: EARTH_RADIUS_def)
  have "scanLoop (equatorSample 0) twoStations 0 2 (0, Infinity) = Inr (0, Num 0)"
    using pos
    by (simp add: scanLoop.simps [of _ _ _ "2"] stationAt_def twoStations_def Let_def d0 d1)
  then show ?thesis
    by (simp add: locateNearest_def Let_def twoStations_def)
qed

text \<open>
  Claim C2, evaluated on the code. A session on the line of two stations: the first
  sample stands on station 0, after which the current station index is 0 and the
  departed flag is unset. One single sample standing on station 1 (the nearest station
  is index 1, whichever hint the scan is given) then sets the current station index to
  1: the callback of the session still holds the index of the render that started the
  session, which is unknown, and takes the cold-start branch on every sample.
\<close>

theorem C2_single_sample_switches_index:
  "currentStationIndex (session (recordingParams twoStations) [equatorSample 0]
      (initialTracking [])) = 0 \<and>
   \<not> hasDepartedFromCurrentStation (session (recordingParams twoStations) [equatorSample 0]
      (initialTracking [])) \<and>
   locateNearest (equatorSample (1 / 100)) twoStations 0 = Inr (0 + 1, Num 0) \<and>
   locateNearest (equatorSample (1 / 100)) twoStations (- 1) = Inr (0 + 1, Num 0) \<and>
   currentStationIndex (session (recordingParams twoStations)
      [equatorSample 0, equatorSample (1 / 100)] (initialTracking [])) = 0 + 1"
proof -
  let ?p = "recordingParams twoStations"
  let ?i = "initialTracking ([]::string list)"
  let ?c = "closureOf ?i"
  let ?t = "startTracking ?p ?i"
  let ?a = "equatorSample 0"
  let ?b = "equatorSample (1 / 100)"
  let ?ta = "snd (updateLocation ?p ?c ?a ?t)"
  let ?tb = "snd (updateLocation ?p ?c ?b ?ta)"
  have sel: "selectedStation ?p = Some (equatorStation 0)"
    "selectedLine ?p = Some (lineOf twoStations)"
    by (simp_all add: recordingParams_def)
  have sts: "stations (lineOf twoStations) = twoStations" by (simp add: lineOf_def)
  have cold: "closedCurrentStationIndex ?c < 0" "closedCurrentStationIndex ?c = - 1"
    by (simp_all add: closureOf_def initialTracking_def)
  have la: "locateNearest ?a (stations (lineOf twoStations)) (closedCurrentStationIndex ?c) =
            Inr (0, Num 0)"
    using locate_at_station_0 by (simp add: sts cold(2))
  have lb: "locateNearest ?b (stations (lineOf twoStations)) (closedCurrentStationIndex ?c) =
            Inr (1, Num 0)"
    using locate_at_station_1(2) by (simp add: sts cold(2))
  have ta: "currentStationIndex ?ta = 0" "\<not> hasDepartedFromCurrentStation ?ta"
    using updateLocation_station_fields [OF sel la, of ?t]
      stationStep_cold_start [OF cold(1), of 0 "Num 0" ?t]
    by simp_all
  have tb: "currentStationIndex ?tb = 1"
    using updateLocation_station_fields(1) [OF sel lb, of ?ta]
      stationStep_cold_start(1) [OF cold(1), of 1 "Num 0" ?ta]
    by simp
  show ?thesis
    using ta tb locate_at_station_1 by (simp add: session_def)
qed

section \<open>The notification dispatcher\<close>

text \<open>
  Claim C7. When sendNotification attempts a dispatch (hasNotified unset, cooldown over)
  and the channel throws, hasNotified is unset again and lastNotificationTime keeps the
  time of the attempt. So a retry less than 5000 ms after the attempt is rejected with
  no effect at all, and a retry from 5000 ms on, on a working channel, dispatches.
\<close>

theorem C7_dispatch_failure_rollback:
  assumes "\<not> hasNotified n" "now - lastNotificationTime n \<ge> NOTIFICATION_COOLDOWN_MS"
    and "channel \<noteq> ChannelOk"
  shows "\<not> hasNotified (sendNotification st os stationName hp now channel n) \<and>
         lastNotificationTime (sendNotification st os stationName hp now channel n) = now \<and>
         (\<forall>retryTime retryChannel name' hp'.
            retryTime - now < 5000 \<longrightarrow>
              sendNotification st os name' hp' retryTime retryChannel
                (sendNotification st os stationName hp now channel n) =
              sendNotification st os stationName hp now channel n) \<and>
         (\<forall>retryTime name' hp'.
            retryTime - now \<ge> 5000 \<longrightarrow>
              hasNotified (sendNotification st os name' hp' retryTime ChannelOk
                (sendNotification st os stationName hp now channel n)) \<and>
              length (presented (sendNotification st os name' hp' retryTime ChannelOk
                (sendNotification st os stationName hp now channel n))) = 1)"
proof -
  let ?n = "sendNotification st os stationName hp now channel n"
  have a: "\<not> hasNotified ?n" and b: "lastNotificationTime ?n = now"
    using assms by (cases channel; simp add: sendNotification_def Let_def)+
  have c: "sendNotification st os name' hp' retryTime retryChannel ?n = ?n"
    if "retryTime - now < 5000" for retryTime retryChannel name' hp'
    using that a b by (simp add: sendNotification_def [of _ _ _ _ retryTime] NOTIFICATION_COOLDOWN_MS_def)
  have e: "hasNotified (sendNotification st os name' hp' retryTime ChannelOk ?n) \<and>
           length (presented (sendNotification st os name' hp' retryTime ChannelOk ?n)) = 1"
    if "retryTime - now \<ge> 5000" for retryTime name' hp'
    using that a b
    by (simp add: sendNotification_def [of _ _ _ _ retryTime] NOTIFICATION_COOLDOWN_MS_def Let_def)
  show ?thesis using a b c e by blast
qed

theorem C7_dispatch_failure_rollback_witness:
  "\<not> hasNotified initialNotifier \<and>
   100000 - lastNotificationTime initialNotifier \<ge> NOTIFICATION_COOLDOWN_MS \<and>
   sendNotification DEFAULT_SETTINGS Android ''S'' True 100000 ScheduleThrows initialNotifier =
     initialNotifier\<lparr>lastNotificationTime := 100000\<rparr> \<and>
   sendNotification DEFAULT_SETTINGS Android ''S'' True 104999 ChannelOk
     (sendNotification DEFAULT_SETTINGS Android ''S'' True 100000 ScheduleThrows initialNotifier) =
     initialNotifier\<lparr>lastNotificationTime := 100000\<rparr> \<and>
   hasNotified (sendNotification DEFAULT_SETTINGS Android ''S'' True 105000 ChannelOk
     (sendNotification DEFAULT_SETTINGS Android ''S'' True 100000 ScheduleThrows initialNotifier))"
proof -
  let ?n = "sendNotification DEFAULT_SETTINGS Android ''S'' True 100000 ScheduleThrows initialNotifier"
  have h: "\<not> hasNotified initialNotifier"
    "100000 - lastNotificationTime initialNotifier \<ge> NOTIFICATION_COOLDOWN_MS"
    "ScheduleThrows \<noteq> ChannelOk"
    by (simp_all add: initialNotifier_def NOTIFICATION_COOLDOWN_MS_def)
  note inst = C7_dispatch_failure_rollback [OF h, of DEFAULT_SETTINGS Android "''S''" True]
  have v: "?n = initialNotifier\<lparr>lastNotificationTime := 100000\<rparr>"
    by (simp add: sendNotification_def initialNotifier_def NOTIFICATION_COOLDOWN_MS_def Let_def)
  have "(104999::int) - 100000 < 5000" by simp
  with inst have r: "sendNotification DEFAULT_SETTINGS Android ''S'' True 104999 ChannelOk ?n = ?n"
    by blast
  have "(105000::int) - 100000 \<ge> 5000" by simp
  with inst have ok: "hasNotified (sendNotification DEFAULT_SETTINGS Android ''S'' True 105000 ChannelOk ?n)"
    by blast
  show ?thesis
    using h(1,2) v r ok by simp
qed

end
